theory Spec2Isabelle
  imports Complex_Main "HOL-Library.Word"
begin

unbundle bit_operations_syntax

section \<open>Strings\<close>

text \<open>
  A JavaScript string is modelled as a \<^typ>\<open>string\<close>: a list of code units below 256.
  Every regular-expression class and every built-in used by the agent is written out
  for that range.
\<close>

definition nl :: string where
  "nl = [CHR 0x0A]"

text \<open>The class \<^verbatim>\<open>[a-z0-9._-]\<close> of the regular expression in \<^verbatim>\<open>slug\<close>.\<close>

definition allowed :: "char \<Rightarrow> bool" where
  "allowed c \<longleftrightarrow> c \<in> set ''abcdefghijklmnopqrstuvwxyz0123456789._-''"

text \<open>
  \<^verbatim>\<open>String.prototype.toLowerCase\<close>, one code unit at a time: the letters A to Z, and the
  capital letters of the upper half of the range (0xC0 to 0xDE but the sign 0xD7), move up
  by 32.
\<close>

definition toLowerChar :: "char \<Rightarrow> char" where
  "toLowerChar c =
     (let n = (of_char c :: nat)
      in if (65 \<le> n \<and> n \<le> 90) \<or> (192 \<le> n \<and> n \<le> 222 \<and> n \<noteq> 215)
         then char_of (n + 32) else c)"

definition toLowerCase :: "string \<Rightarrow> string" where
  "toLowerCase s = map toLowerChar s"

text \<open>White space as \<^verbatim>\<open>trim\<close> and \<^verbatim>\<open>\s\<close> see it: TAB, LF, VT, FF, CR, SP, NBSP.\<close>

definition is_space :: "char \<Rightarrow> bool" where
  "is_space c \<longleftrightarrow> c \<in> set [CHR 0x09, CHR 0x0A, CHR 0x0B, CHR 0x0C, CHR 0x0D, CHR 0x20, CHR 0xA0]"

definition trim :: "string \<Rightarrow> string" where
  "trim s = rev (dropWhile is_space (rev (dropWhile is_space s)))"

text \<open>\<^verbatim>\<open>s.split(sep)\<close> for a non-empty separator string.\<close>

function split_acc :: "string \<Rightarrow> string \<Rightarrow> string \<Rightarrow> string list" where
  "split_acc sep acc [] = [rev acc]"
| "split_acc sep acc (c # cs) =
     (if sep \<noteq> [] \<and> take (length sep) (c # cs) = sep
      then rev acc # split_acc sep [] (drop (length sep) (c # cs))
      else split_acc sep (c # acc) cs)"
  by pat_completeness auto
termination
  by (relation "measure (\<lambda>(sep, acc, s). length s)") auto

definition split :: "string \<Rightarrow> string \<Rightarrow> string list" where
  "split sep s = split_acc sep [] s"

text \<open>\<^verbatim>\<open>s.split(/\s+/)\<close>: runs of white space separate the parts.\<close>

function split_ws_acc :: "string \<Rightarrow> string \<Rightarrow> string list" where
  "split_ws_acc acc [] = [rev acc]"
| "split_ws_acc acc (c # cs) =
     (if is_space c then rev acc # split_ws_acc [] (dropWhile is_space cs)
      else split_ws_acc (c # acc) cs)"
  by pat_completeness auto
termination
  by (relation "measure (\<lambda>(acc, s). length s)") (auto simp: length_dropWhile_le less_Suc_eq_le)

definition split_ws :: "string \<Rightarrow> string list" where
  "split_ws s = split_ws_acc [] s"

text \<open>\<^verbatim>\<open>s.indexOf("=")\<close>, with \<open>None\<close> for -1.\<close>

fun indexOf :: "char \<Rightarrow> string \<Rightarrow> nat option" where
  "indexOf c [] = None"
| "indexOf c (x # xs) =
     (if x = c then Some 0 else (case indexOf c xs of None \<Rightarrow> None | Some i \<Rightarrow> Some (Suc i)))"

definition endsWith :: "string \<Rightarrow> string \<Rightarrow> bool" where
  "endsWith s suf \<longleftrightarrow> length suf \<le> length s \<and> drop (length s - length suf) s = suf"

text \<open>\<^verbatim>\<open>arr.join(sep)\<close>.\<close>

fun join :: "string \<Rightarrow> string list \<Rightarrow> string" where
  "join sep [] = []"
| "join sep [x] = x"
| "join sep (x # y # ys) = x @ sep @ join sep (y # ys)"

text \<open>Comparison by code units, the order of \<^verbatim>\<open><\<close> on strings and of the default sort.\<close>

fun ordinal_le :: "string \<Rightarrow> string \<Rightarrow> bool" where
  "ordinal_le [] ys = True"
| "ordinal_le (x # xs) [] = False"
| "ordinal_le (x # xs) (y # ys) =
     ((of_char x :: nat) < of_char y \<or> (x = y \<and> ordinal_le xs ys))"

definition ordinal_compare :: "string \<Rightarrow> string \<Rightarrow> int" where
  "ordinal_compare a b = (if a = b then 0 else if ordinal_le a b then - 1 else 1)"

text \<open>
  \<^verbatim>\<open>Array.prototype.sort(compareFn)\<close>: a stable sort; an element goes after the ones it
  does not compare below.
\<close>

fun insort_cmp :: "('a \<Rightarrow> 'a \<Rightarrow> int) \<Rightarrow> 'a \<Rightarrow> 'a list \<Rightarrow> 'a list" where
  "insort_cmp cmp x [] = [x]"
| "insort_cmp cmp x (y # ys) =
     (if cmp x y < 0 then x # y # ys else y # insort_cmp cmp x ys)"

definition sort_cmp :: "('a \<Rightarrow> 'a \<Rightarrow> int) \<Rightarrow> 'a list \<Rightarrow> 'a list" where
  "sort_cmp cmp xs = foldl (\<lambda>acc x. insort_cmp cmp x acc) [] xs"

text \<open>A consistent comparator, as the language requires of \<^verbatim>\<open>compareFn\<close>.\<close>

definition consistent :: "('a \<Rightarrow> 'a \<Rightarrow> int) \<Rightarrow> bool" where
  "consistent cmp \<longleftrightarrow>
     (\<forall>a b. (cmp a b < 0) = (0 < cmp b a)) \<and>
     (\<forall>a b c. cmp a b \<le> 0 \<and> cmp b c \<le> 0 \<longrightarrow> cmp a c \<le> 0)"

section \<open>Identifiers\<close>

text \<open>\<^verbatim>\<open>.replace(/[^a-z0-9._-]+/g, "-")\<close>: each maximal run outside the class becomes one dash.\<close>

function replace_runs :: "string \<Rightarrow> string" where
  "replace_runs [] = []"
| "replace_runs (c # cs) =
     (if allowed c then c # replace_runs cs
      else CHR ''-'' # replace_runs (dropWhile (\<lambda>x. \<not> allowed x) cs))"
  by pat_completeness auto
termination
  by (relation "measure length") (auto simp: length_dropWhile_le less_Suc_eq_le)

text \<open>\<^verbatim>\<open>.replace(/^-+|-+$/g, "")\<close>: the leading and the trailing run of dashes go.\<close>

definition strip_dashes :: "string \<Rightarrow> string" where
  "strip_dashes s =
     rev (dropWhile (\<lambda>c. c = CHR ''-'') (rev (dropWhile (\<lambda>c. c = CHR ''-'') s)))"

definition slug :: "string \<Rightarrow> string" where
  "slug s = strip_dashes (replace_runs (toLowerCase s))"

section \<open>Configuration and host\<close>

text \<open>
  The configuration object after loading. A numeric setting is \<open>None\<close> when the key is
  missing (the merge over the defaults is shallow) or not a number. Field
  \<open>include_names\<close> is \<^verbatim>\<open>config.include\<close>, \<open>exclude_names\<close> is \<^verbatim>\<open>config.exclude\<close>,
  \<open>ws_conf\<close> is \<^verbatim>\<open>config.ws\<close> and \<open>systemId_conf\<close> is \<^verbatim>\<open>config.systemId\<close>.
\<close>

record docker_config =
  enabled :: bool
  binary :: string

record ws_config =
  url :: string
  token :: string
  heartbeatSec :: "rat option"
  reconnectBaseMs :: "rat option"
  reconnectMaxMs :: "rat option"

record reporting_config =
  intervalSec :: "rat option"
  sendOnConnect :: bool

record config =
  include_names :: "string list"
  exclude_names :: "string list"
  ws_conf :: ws_config
  reporting :: reporting_config
  docker :: docker_config
  systemId_conf :: "string option"

datatype platform_id = Linux | Darwin | OtherPlatform

text \<open>
  What the process reads from its host: the host name, the resolved system identity, the
  platform, the clock, the standard output of an external command (\<^verbatim>\<open>execCmd\<close>), and
  the two built-ins whose result depends on the runtime: \<^verbatim>\<open>String.prototype.localeCompare\<close>
  and \<^verbatim>\<open>Number\<close> on a string (\<open>None\<close> for NaN).
\<close>

record host_env =
  HOSTNAME :: string
  SYSTEM_ID :: string
  process_platform :: platform_id
  toISOString :: string
  execCmd :: "string \<Rightarrow> string"
  localeCompare :: "string \<Rightarrow> string \<Rightarrow> int"
  toNumber :: "string \<Rightarrow> rat option"

definition isLinux :: "host_env \<Rightarrow> bool" where
  "isLinux h \<longleftrightarrow> process_platform h = Linux"

definition isMac :: "host_env \<Rightarrow> bool" where
  "isMac h \<longleftrightarrow> process_platform h = Darwin"

definition mkId :: "host_env \<Rightarrow> string \<Rightarrow> string" where
  "mkId h serviceName = slug (HOSTNAME h) @ '':'' @ slug serviceName"

definition mkGlobalId :: "host_env \<Rightarrow> string \<Rightarrow> string" where
  "mkGlobalId h serviceName = SYSTEM_ID h @ '':'' @ slug serviceName"

section \<open>Enumerators\<close>

text \<open>Field \<open>id'\<close> is the record's \<^verbatim>\<open>id\<close>; \<open>sub\<close> is \<open>None\<close> where the source stores undefined.\<close>

record service_record =
  id' :: string
  gid :: string
  systemId :: string
  host :: string
  service :: string
  description :: string
  load :: string
  active :: string
  sub :: "string option"
  unitFileState :: string
  path :: string
  healthy :: bool
  updatedAt :: string
  platform :: string

text \<open>\<^verbatim>\<open>obj.Key || fallback\<close> on a parsed section.\<close>

definition or_else :: "string option \<Rightarrow> string \<Rightarrow> string" where
  "or_else v d = (case v of None \<Rightarrow> d | Some x \<Rightarrow> if x = [] then d else x)"

text \<open>The inner loop of \<^verbatim>\<open>listSystemdServices\<close>: one \<^verbatim>\<open>key=value\<close> line into the object.\<close>

definition parse_line :: "(string \<rightharpoonup> string) \<Rightarrow> string \<Rightarrow> (string \<rightharpoonup> string)" where
  "parse_line obj line =
     (case indexOf CHR ''='' line of
        None \<Rightarrow> obj
      | Some idx \<Rightarrow> if 0 < idx then obj(take idx line \<mapsto> drop (idx + 1) line) else obj)"

definition parse_section :: "string \<Rightarrow> (string \<rightharpoonup> string)" where
  "parse_section sec = foldl parse_line Map.empty (split nl sec)"

definition systemd_record :: "host_env \<Rightarrow> (string \<rightharpoonup> string) \<Rightarrow> string \<Rightarrow> service_record" where
  "systemd_record h obj name =
     \<lparr> id' = mkId h name,
       gid = mkGlobalId h name,
       systemId = SYSTEM_ID h,
       host = HOSTNAME h,
       service = name,
       description = or_else (obj ''Description'') [],
       load = or_else (obj ''LoadState'') ''unknown'',
       active = or_else (obj ''ActiveState'') ''unknown'',
       sub = Some (or_else (obj ''SubState'') ''unknown''),
       unitFileState = or_else (obj ''UnitFileState'') ''unknown'',
       path = or_else (obj ''FragmentPath'') [],
       healthy = ((obj ''ActiveState'' = Some ''active'' \<and> obj ''SubState'' = Some ''running'')
                  \<or> obj ''ActiveState'' = Some ''active''),
       updatedAt = toISOString h,
       platform = ''linux'' \<rparr>"

text \<open>The body of the loop over the sections; \<^verbatim>\<open>continue\<close> leaves the list as it is.\<close>

definition systemd_section :: "config \<Rightarrow> host_env \<Rightarrow> service_record list \<Rightarrow> string \<Rightarrow> service_record list" where
  "systemd_section cfg h services sec =
     (let obj = parse_section sec in
      case obj ''Id'' of
        None \<Rightarrow> services
      | Some name \<Rightarrow>
          if name = [] \<or> \<not> endsWith name ''.service'' then services
          else if include_names cfg \<noteq> [] \<and> name \<notin> set (include_names cfg) then services
          else if name \<in> set (exclude_names cfg) then services
          else services @ [systemd_record h obj name])"

definition by_service :: "host_env \<Rightarrow> service_record \<Rightarrow> service_record \<Rightarrow> int" where
  "by_service h a b = localeCompare h (service a) (service b)"

definition systemctl_cmd :: string where
  "systemctl_cmd = ''systemctl show --type=service --all --no-page --property=Id,Description,LoadState,ActiveState,SubState,UnitFileState,FragmentPath''"

definition listSystemdServices :: "config \<Rightarrow> host_env \<Rightarrow> service_record list" where
  "listSystemdServices cfg h =
     (let stdout = execCmd h systemctl_cmd;
          sections = filter (\<lambda>b. b \<noteq> []) (map trim (split (nl @ nl) stdout))
      in sort_cmp (by_service h) (foldl (systemd_section cfg h) [] sections))"

text \<open>\<^verbatim>\<open>/^\d+$/\<close>.\<close>

definition all_digits :: "string \<Rightarrow> bool" where
  "all_digits s \<longleftrightarrow> s \<noteq> [] \<and> list_all (\<lambda>c. c \<in> set ''0123456789'') s"

definition launchd_record :: "host_env \<Rightarrow> string \<Rightarrow> bool \<Rightarrow> bool \<Rightarrow> service_record" where
  "launchd_record h label running healthy_flag =
     \<lparr> id' = mkId h label,
       gid = mkGlobalId h label,
       systemId = SYSTEM_ID h,
       host = HOSTNAME h,
       service = label,
       description = [],
       load = (if running then ''loaded'' else ''not-loaded''),
       active = (if running then ''active'' else ''inactive''),
       sub = Some (if running then ''running'' else ''stopped''),
       unitFileState = ''unknown'',
       path = [],
       healthy = healthy_flag,
       updatedAt = toISOString h,
       platform = ''darwin'' \<rparr>"

definition launchd_line :: "config \<Rightarrow> host_env \<Rightarrow> service_record list \<Rightarrow> string \<Rightarrow> service_record list" where
  "launchd_line cfg h services line =
     (if trim line = [] then services
      else
        (case split_ws (trim line) of
           [] \<Rightarrow> services
         | pidRaw # rest \<Rightarrow>
             let label = last (pidRaw # rest) in
             if label = [] then services
             else
               let running = (pidRaw \<noteq> [] \<and> pidRaw \<noteq> ''-'' \<and> all_digits pidRaw);
                   statusNum = (case rest of [] \<Rightarrow> None | statusRaw # _ \<Rightarrow> toNumber h statusRaw);
                   healthy_flag = (running \<and> (statusNum = None \<or> statusNum = Some 0))
               in
               if include_names cfg \<noteq> [] \<and> label \<notin> set (include_names cfg) then services
               else if label \<in> set (exclude_names cfg) then services
               else services @ [launchd_record h label running healthy_flag]))"

definition listLaunchdServices :: "config \<Rightarrow> host_env \<Rightarrow> service_record list" where
  "listLaunchdServices cfg h =
     (let stdout = execCmd h ''launchctl list || true'';
          lines = drop 1 (split nl stdout)
      in sort_cmp (by_service h) (foldl (launchd_line cfg h) [] lines))"

text \<open>\<^verbatim>\<open>/Up\s/i.test(status)\<close>.\<close>

fun test_Up :: "string \<Rightarrow> bool" where
  "test_Up (a # b # c # cs) =
     ((toLowerChar a = CHR ''u'' \<and> toLowerChar b = CHR ''p'' \<and> is_space c) \<or> test_Up (b # c # cs))"
| "test_Up _ = False"

text \<open>An array element read by index: \<open>None\<close> is undefined; a template prints it as such.\<close>

definition at_index :: "'a list \<Rightarrow> nat \<Rightarrow> 'a option" where
  "at_index xs i = (if i < length xs then Some (xs ! i) else None)"

definition interpolate :: "string option \<Rightarrow> string" where
  "interpolate v = (case v of None \<Rightarrow> ''undefined'' | Some s \<Rightarrow> s)"

definition docker_record :: "host_env \<Rightarrow> string \<Rightarrow> service_record" where
  "docker_record h l =
     (let ps = split ''|'' l;
          cid = at_index ps 0; name = at_index ps 1; status = at_index ps 2;
          up = test_Up (interpolate status)
      in \<lparr> id' = mkId h (''docker:'' @ interpolate name),
            gid = mkGlobalId h (''docker:'' @ interpolate name),
            systemId = SYSTEM_ID h,
            host = HOSTNAME h,
            service = ''docker:'' @ interpolate name,
            description = ''Container '' @ interpolate cid,
            load = ''loaded'',
            active = (if up then ''active'' else ''inactive''),
            sub = status,
            unitFileState = ''container'',
            path = [],
            healthy = up,
            updatedAt = toISOString h,
            platform = ''docker'' \<rparr>)"

definition docker_cmd :: "config \<Rightarrow> string" where
  "docker_cmd cfg =
     binary (docker cfg) @ '' ps --format '' @ [CHR 0x22] @ ''{{.ID}}|{{.Names}}|{{.Status}}'' @ [CHR 0x22]"

definition docker_lines :: "config \<Rightarrow> host_env \<Rightarrow> string list" where
  "docker_lines cfg h = filter (\<lambda>l. l \<noteq> []) (split nl (trim (execCmd h (docker_cmd cfg))))"

definition listDockerContainers :: "config \<Rightarrow> host_env \<Rightarrow> service_record list" where
  "listDockerContainers cfg h =
     (if \<not> enabled (docker cfg) then []
      else map (docker_record h) (docker_lines cfg h))"

section \<open>Snapshot\<close>

record snapshot =
  services :: "service_record list"
  takenAt :: "string option"

definition takeSnapshot :: "config \<Rightarrow> host_env \<Rightarrow> snapshot" where
  "takeSnapshot cfg h =
     (let parts = (if isLinux h then [listSystemdServices cfg h] else [])
                  @ (if isMac h then [listLaunchdServices cfg h] else [])
                  @ (if enabled (docker cfg) then [listDockerContainers cfg h] else [])
      in \<lparr> services = concat parts, takenAt = Some (toISOString h) \<rparr>)"

section \<open>Timing parameters\<close>

text \<open>\<^verbatim>\<open>setting || fallback\<close> on a number: a missing setting, NaN and 0 take the fallback.\<close>

definition or_default :: "rat option \<Rightarrow> rat \<Rightarrow> rat" where
  "or_default x d = (case x of None \<Rightarrow> d | Some v \<Rightarrow> if v = 0 then d else v)"

text \<open>The constants \<^verbatim>\<open>base\<close>, \<^verbatim>\<open>max\<close>, \<^verbatim>\<open>jitter\<close>, \<^verbatim>\<open>backoff\<close> and \<^verbatim>\<open>delay\<close> of \<^verbatim>\<open>scheduleReconnect\<close>.\<close>

definition reconnect_base :: "config \<Rightarrow> rat" where
  "reconnect_base cfg = max 100 (or_default (reconnectBaseMs (ws_conf cfg)) 1000)"

definition reconnect_max :: "config \<Rightarrow> rat" where
  "reconnect_max cfg = max (reconnect_base cfg) (or_default (reconnectMaxMs (ws_conf cfg)) 30000)"

text \<open>\<^verbatim>\<open>Math.floor(Math.random() * 200)\<close>, for the number \<open>rnd\<close> drawn from [0, 1).\<close>

definition jitter :: "rat \<Rightarrow> rat" where
  "jitter rnd = of_int \<lfloor>rnd * 200\<rfloor>"

definition backoff :: "config \<Rightarrow> nat \<Rightarrow> rat" where
  "backoff cfg attempts = min (reconnect_max cfg) (of_int \<lfloor>reconnect_base cfg * 2 ^ attempts\<rfloor>)"

definition reconnect_delay :: "config \<Rightarrow> nat \<Rightarrow> rat \<Rightarrow> rat" where
  "reconnect_delay cfg attempts rnd = backoff cfg attempts + jitter rnd"

text \<open>
  \<^verbatim>\<open>startHeartbeat\<close> computes two numbers: \<^verbatim>\<open>interval\<close>, which the staleness test uses,
  and the period it hands to \<^verbatim>\<open>setInterval\<close>.
\<close>

definition heartbeat_interval :: "config \<Rightarrow> rat" where
  "heartbeat_interval cfg = max 5 (or_default (heartbeatSec (ws_conf cfg)) 25) * 1000"

definition heartbeat_period :: "config \<Rightarrow> rat" where
  "heartbeat_period cfg = of_int \<lfloor>or_default (heartbeatSec (ws_conf cfg)) 25 * 1000\<rfloor>"

text \<open>The period \<^verbatim>\<open>ms\<close> that \<^verbatim>\<open>startPeriodicReports\<close> hands to \<^verbatim>\<open>setInterval\<close>.\<close>

definition report_period :: "config \<Rightarrow> rat" where
  "report_period cfg = max 5 (or_default (intervalSec (reporting cfg)) 30) * 1000"

text \<open>
  The runtime's reading of a timer delay, in whole milliseconds: a delay below 1 or above
  2147483647 is 1, any other is truncated.
\<close>

definition timer_delay :: "rat \<Rightarrow> int" where
  "timer_delay d = (if d < 1 \<or> 2147483647 < d then 1 else \<lfloor>d\<rfloor>)"

section \<open>Connection manager\<close>

datatype readyState = CONNECTING | OPEN | CLOSING | CLOSED

text \<open>
  The module's variables \<^verbatim>\<open>ws\<close> (the current socket, by its ready state),
  \<^verbatim>\<open>wsTimerHeartbeat\<close>, \<^verbatim>\<open>wsTimerReconnect\<close>, \<^verbatim>\<open>lastPongAt\<close>, \<^verbatim>\<open>reconnectAttempts\<close>, and the
  runtime's side of the timers: the pending reconnect timeouts and the running intervals,
  each a handle with its delay.
\<close>

record agent_state =
  ws :: "readyState option"
  wsTimerHeartbeat :: "nat option"
  wsTimerReconnect :: "nat option"
  lastPongAt :: int
  reconnectAttempts :: nat
  timeouts :: "(nat \<times> rat) list"
  intervals :: "(nat \<times> rat) list"
  next_handle :: nat

datatype socket_call = WsPing | WsTerminate | WsClose

definition stopHeartbeat :: "agent_state \<Rightarrow> agent_state" where
  "stopHeartbeat s =
     (case wsTimerHeartbeat s of
        None \<Rightarrow> s
      | Some t \<Rightarrow> s\<lparr> intervals := filter (\<lambda>p. fst p \<noteq> t) (intervals s), wsTimerHeartbeat := None \<rparr>)"

definition startHeartbeat :: "config \<Rightarrow> agent_state \<Rightarrow> agent_state" where
  "startHeartbeat cfg s =
     (let s1 = stopHeartbeat s; t = next_handle s1
      in s1\<lparr> wsTimerHeartbeat := Some t,
              intervals := (t, heartbeat_period cfg) # intervals s1,
              next_handle := t + 1 \<rparr>)"

text \<open>The callback of the heartbeat interval, with the calls it makes on the socket.\<close>

definition heartbeat_tick :: "config \<Rightarrow> int \<Rightarrow> agent_state \<Rightarrow> agent_state \<times> socket_call list" where
  "heartbeat_tick cfg now s =
     (if ws s \<noteq> Some OPEN then (s, [])
      else if lastPongAt s \<noteq> 0 \<and> heartbeat_interval cfg * 2 < of_int (now - lastPongAt s)
      then (s\<lparr> ws := Some CLOSING \<rparr>, [WsPing, WsTerminate])
      else (s, [WsPing]))"

text \<open>\<^verbatim>\<open>connectWS\<close>; the configured URL, when there is one, is taken to parse.\<close>

definition connectWS :: "config \<Rightarrow> agent_state \<Rightarrow> agent_state" where
  "connectWS cfg s = (if url (ws_conf cfg) = [] then s else s\<lparr> ws := Some CONNECTING \<rparr>)"

definition scheduleReconnect :: "config \<Rightarrow> rat \<Rightarrow> agent_state \<Rightarrow> agent_state" where
  "scheduleReconnect cfg rnd s =
     (if wsTimerReconnect s \<noteq> None then s
      else
        let t = next_handle s
        in s\<lparr> wsTimerReconnect := Some t,
               timeouts := (t, reconnect_delay cfg (reconnectAttempts s) rnd) # timeouts s,
               next_handle := t + 1 \<rparr>)"

text \<open>The callback of the reconnect timeout.\<close>

definition reconnect_callback :: "config \<Rightarrow> agent_state \<Rightarrow> agent_state" where
  "reconnect_callback cfg s = connectWS cfg (s\<lparr> wsTimerReconnect := None \<rparr>)"

text \<open>The socket's handlers, as far as they touch the state.\<close>

definition on_open :: "config \<Rightarrow> int \<Rightarrow> agent_state \<Rightarrow> agent_state" where
  "on_open cfg now s = startHeartbeat cfg (s\<lparr> reconnectAttempts := 0, lastPongAt := now \<rparr>)"

definition on_pong :: "int \<Rightarrow> agent_state \<Rightarrow> agent_state" where
  "on_pong now s = s\<lparr> lastPongAt := now \<rparr>"

definition on_close :: "config \<Rightarrow> rat \<Rightarrow> agent_state \<Rightarrow> agent_state" where
  "on_close cfg rnd s =
     (let s1 = stopHeartbeat s;
          s2 = s1\<lparr> reconnectAttempts := reconnectAttempts s1 + 1 \<rparr>
      in scheduleReconnect cfg rnd s2)"

text \<open>The signal handler \<^verbatim>\<open>shutdown\<close>, up to the exit it schedules.\<close>

definition shutdown :: "agent_state \<Rightarrow> agent_state" where
  "shutdown s =
     (let s1 = stopHeartbeat s
      in case ws s1 of
           None \<Rightarrow> s1
         | Some CLOSED \<Rightarrow> s1
         | Some r \<Rightarrow> s1\<lparr> ws := Some CLOSING \<rparr>)"

text \<open>
  What can happen to the process: an event of the socket (with the clock reading or the
  random number its handler draws), a timer of the runtime firing, a signal. A socket
  event may come in any state; a timer fires only while the runtime holds its handle, and
  a timeout's handle is gone once it has fired. The message handler touches none of the
  variables above.
\<close>

datatype event =
    OnOpen int
  | OnMessage string
  | OnPong int
  | OnClose rat
  | OnError
  | ReconnectTimer nat
  | HeartbeatTimer nat int
  | Signal

fun step :: "config \<Rightarrow> event \<Rightarrow> agent_state \<Rightarrow> agent_state option" where
  "step cfg (OnOpen now) s = Some (on_open cfg now (s\<lparr> ws := Some OPEN \<rparr>))"
| "step cfg (OnMessage m) s = Some s"
| "step cfg (OnPong now) s = Some (on_pong now s)"
| "step cfg (OnClose rnd) s = Some (on_close cfg rnd (s\<lparr> ws := Some CLOSED \<rparr>))"
| "step cfg OnError s = Some s"
| "step cfg (ReconnectTimer t) s =
     (if t \<in> set (map fst (timeouts s))
      then Some (reconnect_callback cfg (s\<lparr> timeouts := filter (\<lambda>p. fst p \<noteq> t) (timeouts s) \<rparr>))
      else None)"
| "step cfg (HeartbeatTimer t now) s =
     (if t \<in> set (map fst (intervals s)) then Some (fst (heartbeat_tick cfg now s)) else None)"
| "step cfg Signal s = Some (shutdown s)"

fun run :: "config \<Rightarrow> event list \<Rightarrow> agent_state \<Rightarrow> agent_state option" where
  "run cfg [] s = Some s"
| "run cfg (e # es) s = (case step cfg e s of None \<Rightarrow> None | Some s' \<Rightarrow> run cfg es s')"

text \<open>The state after \<^verbatim>\<open>boot\<close> has called \<^verbatim>\<open>connectWS\<close>.\<close>

definition boot_state :: "config \<Rightarrow> agent_state" where
  "boot_state cfg =
     connectWS cfg
       \<lparr> ws = None, wsTimerHeartbeat = None, wsTimerReconnect = None, lastPongAt = 0,
         reconnectAttempts = 0, timeouts = [], intervals = [], next_handle = 0 \<rparr>"

text \<open>
  Two properties of a state: the runtime holds exactly the reconnect timeout the variable
  names, and a socket that is open has its heartbeat interval running.
\<close>

definition reconnect_inv :: "agent_state \<Rightarrow> bool" where
  "reconnect_inv s \<longleftrightarrow>
     map fst (timeouts s) = (case wsTimerReconnect s of None \<Rightarrow> [] | Some t \<Rightarrow> [t])"

definition heartbeat_inv :: "config \<Rightarrow> agent_state \<Rightarrow> bool" where
  "heartbeat_inv cfg s \<longleftrightarrow>
     ws s \<noteq> Some OPEN \<or>
     (\<exists>t. wsTimerHeartbeat s = Some t \<and> (t, heartbeat_period cfg) \<in> set (intervals s))"

text \<open>
  The first firing, at or after time \<open>T\<close>, of an interval started at \<open>t0\<close> with period \<open>P\<close>.
\<close>

definition next_tick :: "int \<Rightarrow> int \<Rightarrow> int \<Rightarrow> int" where
  "next_tick t0 P T = t0 + P * max 1 ((T - t0 + P - 1) div P)"

section \<open>System identity\<close>

text \<open>
  The file system as the resolver sees it: the files with their content and permission
  bits, the paths where reading or writing throws, and the process's umask. Writing
  creates a missing file with the requested mode less the umask and leaves the mode of
  an existing file alone, as \<^verbatim>\<open>open(2)\<close> does.
\<close>

record filesystem =
  files :: "string \<rightharpoonup> string \<times> 16 word"
  read_throws :: "string \<Rightarrow> bool"
  write_throws :: "string \<Rightarrow> bool"
  umask :: "16 word"

definition existsSync :: "filesystem \<Rightarrow> string \<Rightarrow> bool" where
  "existsSync fs p \<longleftrightarrow> files fs p \<noteq> None"

definition readFileSync :: "filesystem \<Rightarrow> string \<Rightarrow> string option" where
  "readFileSync fs p =
     (if read_throws fs p then None
      else case files fs p of None \<Rightarrow> None | Some (c, m) \<Rightarrow> Some c)"

definition writeFileSync :: "filesystem \<Rightarrow> string \<Rightarrow> string \<Rightarrow> 16 word \<Rightarrow> filesystem option" where
  "writeFileSync fs p content mode =
     (if write_throws fs p then None
      else Some (fs\<lparr> files := (files fs)(p \<mapsto>
             (content, case files fs p of None \<Rightarrow> mode AND NOT (umask fs) | Some (c, m) \<Rightarrow> m)) \<rparr>))"

text \<open>A value in a condition: null, undefined and the empty string are false.\<close>

definition truthy :: "string option \<Rightarrow> bool" where
  "truthy v \<longleftrightarrow> (case v of None \<Rightarrow> False | Some s \<Rightarrow> s \<noteq> [])"

text \<open>
  What else the resolver reads: the environment's path override (empty when unset), the
  two joined paths, the hardware addresses of the interfaces in the order listed (\<open>None\<close>
  when listing them throws; an interface without an address has the empty string), the
  digest and the random identifier.
\<close>

record id_env =
  SVC_AGENT_ID_PATH :: string
  cwd_id_file :: string
  dirname_id_file :: string
  interface_macs :: "string list option"
  sha256_hex :: "string \<Rightarrow> string"
  randomUUID :: string

definition ID_FILE_CANDIDATES :: "id_env \<Rightarrow> string list" where
  "ID_FILE_CANDIDATES ie =
     filter (\<lambda>p. p \<noteq> [])
       [SVC_AGENT_ID_PATH ie, ''/etc/tds-svc-agent.id'', cwd_id_file ie, dirname_id_file ie]"

fun readFirstExisting :: "filesystem \<Rightarrow> string list \<Rightarrow> string option" where
  "readFirstExisting fs [] = None"
| "readFirstExisting fs (p # ps) =
     (if existsSync fs p
      then (case readFileSync fs p of
              Some c \<Rightarrow> Some (trim c)
            | None \<Rightarrow> readFirstExisting fs ps)
      else readFirstExisting fs ps)"

fun writeFirstWritable :: "filesystem \<Rightarrow> string list \<Rightarrow> string \<Rightarrow> string option \<times> filesystem" where
  "writeFirstWritable fs [] v = (None, fs)"
| "writeFirstWritable fs (p # ps) v =
     (case writeFileSync fs p (v @ nl) 0x180 of
        Some fs' \<Rightarrow> (Some p, fs')
      | None \<Rightarrow> writeFirstWritable fs ps v)"

definition getLinuxMachineId :: "filesystem \<Rightarrow> string option" where
  "getLinuxMachineId fs =
     (if existsSync fs ''/etc/machine-id''
      then map_option trim (readFileSync fs ''/etc/machine-id'')
      else if existsSync fs ''/var/lib/dbus/machine-id''
      then map_option trim (readFileSync fs ''/var/lib/dbus/machine-id'')
      else None)"

definition ioreg_cmd :: string where
  "ioreg_cmd = ''/usr/sbin/ioreg -rd1 -c IOPlatformExpertDevice | awk -F'' @ [CHR 0x27, CHR 0x22, CHR 0x27]
               @ '' '' @ [CHR 0x27] @ ''/IOPlatformUUID/ {print $4}'' @ [CHR 0x27]"

definition getMacPlatformUUID :: "host_env \<Rightarrow> string option" where
  "getMacPlatformUUID h = (let v = trim (execCmd h ioreg_cmd) in if v = [] then None else Some v)"

text \<open>The hash fallback; \<open>None\<close> when the \<^verbatim>\<open>try\<close> block throws.\<close>

definition hash_fallback :: "host_env \<Rightarrow> id_env \<Rightarrow> string option" where
  "hash_fallback h ie =
     (case interface_macs ie of
        None \<Rightarrow> None
      | Some ms \<Rightarrow>
          let macs = join '','' (sort_cmp ordinal_compare
                       (filter (\<lambda>m. m \<noteq> [] \<and> m \<noteq> ''00:00:00:00:00:00'') ms));
              hash = take 32 (sha256_hex ie (HOSTNAME h @ ''|'' @ macs))
          in Some (''sha256-'' @ hash))"

text \<open>\<^verbatim>\<open>initSystemId\<close>: the identity and the file system it leaves.\<close>

definition initSystemId :: "config \<Rightarrow> host_env \<Rightarrow> id_env \<Rightarrow> filesystem \<Rightarrow> string \<times> filesystem" where
  "initSystemId cfg h ie fs =
     (if truthy (systemId_conf cfg) then (trim (the (systemId_conf cfg)), fs)
      else
        let persisted = readFirstExisting fs (ID_FILE_CANDIDATES ie) in
        if truthy persisted then (the persisted, fs)
        else
          let osId1 = (if isLinux h then getLinuxMachineId fs
                       else if isMac h then getMacPlatformUUID h
                       else None);
              osId2 = (if truthy osId1 then osId1 else hash_fallback h ie);
              osId = (if truthy osId2 then the osId2 else randomUUID ie)
          in (osId, snd (writeFirstWritable fs (ID_FILE_CANDIDATES ie) osId)))"

section \<open>Remote command executor\<close>

text \<open>Decimal printing, for the exit code in the error text.\<close>

function show_nat :: "nat \<Rightarrow> string" where
  "show_nat n =
     (if n < 10 then [''0123456789'' ! n]
      else show_nat (n div 10) @ [''0123456789'' ! (n mod 10)])"
  by pat_completeness auto
termination
  by (relation "measure id") auto

definition show_int :: "int \<Rightarrow> string" where
  "show_int i = (if i < 0 then ''-'' @ show_nat (nat (- i)) else show_nat (nat i))"

text \<open>The exit code is \<open>None\<close> (null) when a signal ended the child.\<close>

definition show_code :: "int option \<Rightarrow> string" where
  "show_code c = (case c of None \<Rightarrow> ''null'' | Some i \<Rightarrow> show_int i)"

record proc_result =
  code :: "int option"
  out :: string
  err :: string

text \<open>
  The script's path, whether it exists, and what running the command line with the extra
  environment gives.
\<close>

record install_env =
  installSh :: string
  installSh_exists :: bool
  spawn :: "string \<Rightarrow> (string \<times> string) list \<Rightarrow> proc_result"

definition quoted :: "string \<Rightarrow> string" where
  "quoted a = [CHR 0x22] @ a @ [CHR 0x22]"

text \<open>\<^verbatim>\<open>s.slice(-n)\<close>.\<close>

definition slice_last :: "nat \<Rightarrow> string \<Rightarrow> string" where
  "slice_last n s = drop (length s - n) s"

text \<open>\<^verbatim>\<open>runLocalInstallSh\<close>: \<open>Inl\<close> carries the message of the error thrown or rejected with.\<close>

definition runLocalInstallSh ::
  "install_env \<Rightarrow> string list \<Rightarrow> (string \<times> string) list \<Rightarrow> string + (int option \<times> string)" where
  "runLocalInstallSh ie extraArgs extraEnv =
     (if \<not> installSh_exists ie then Inl (''install.sh not found at '' @ installSh ie)
      else
        let cmd = trim (quoted (installSh ie) @ '' '' @ join '' '' (map quoted extraArgs));
            r = spawn ie cmd extraEnv
        in if code r \<noteq> Some 0
           then Inl (trim (''install.sh failed (code '' @ show_code (code r) @ ''): ''
                  @ (if err r \<noteq> [] then err r
                     else if out r \<noteq> [] then out r
                     else show_code (code r))))
           else Inr (code r, slice_last 4000 (out r)))"

section \<open>Message dispatcher\<close>

text \<open>A decoded message, and how the handler reads its fields.\<close>

datatype json =
    JNull
  | JBool bool
  | JNum rat
  | JStr string
  | JArr "json list"
  | JObj "(string \<times> json) list"

definition field :: "json option \<Rightarrow> string \<Rightarrow> json option" where
  "field data k = (case data of Some (JObj kvs) \<Rightarrow> map_of kvs k | _ \<Rightarrow> None)"

fun is_true :: "json option \<Rightarrow> bool" where
  "is_true None = False"
| "is_true (Some JNull) = False"
| "is_true (Some (JBool b)) = b"
| "is_true (Some (JNum n)) = (n \<noteq> 0)"
| "is_true (Some (JStr s)) = (s \<noteq> [])"
| "is_true (Some (JArr xs)) = True"
| "is_true (Some (JObj kvs)) = True"

text \<open>
  The messages the agent sends; a field is \<open>None\<close> where the object has none. What the
  handler leaves behind: a message handed to \<^verbatim>\<open>wsSend\<close>, the cache replaced, the restart
  timer set.
\<close>

datatype message =
    Pong int
  | Snapshot "json option" snapshot
  | Ok "json option" "string option" nat
  | InstallResult (reply_id: "json option") (ok: bool) (stdout: "string option") (error: "string option")

datatype effect =
    WsSend message
  | SetLastSnapshot snapshot
  | RestartSelfIn nat

definition wsSend :: "readyState option \<Rightarrow> message \<Rightarrow> effect list" where
  "wsSend sock m = (if sock = Some OPEN then [WsSend m] else [])"

text \<open>
  The \<^verbatim>\<open>runInstall\<close> case of \<^verbatim>\<open>handleMessage\<close>. The host's \<open>to_string\<close> is the string a
  value prints as in a template.
\<close>

definition install_args :: "(json \<Rightarrow> string) \<Rightarrow> json option \<Rightarrow> string list" where
  "install_args to_string data =
     (case field data ''args'' of Some (JArr xs) \<Rightarrow> map to_string xs | _ \<Rightarrow> [])"

definition install_env_vars :: "(json \<Rightarrow> string) \<Rightarrow> json option \<Rightarrow> (string \<times> string) list" where
  "install_env_vars to_string data =
     (case field data ''env'' of
        Some (JObj kvs) \<Rightarrow> map (\<lambda>(k, v). (k, to_string v)) kvs
      | Some (JArr xs) \<Rightarrow> map (\<lambda>(i, v). (show_nat i, to_string v)) (enumerate 0 xs)
      | _ \<Rightarrow> [])"

definition handle_runInstall ::
  "install_env \<Rightarrow> (json \<Rightarrow> string) \<Rightarrow> readyState option \<Rightarrow> json option \<Rightarrow> effect list" where
  "handle_runInstall ie to_string sock data =
     (let rid = field data ''id'';
          args = install_args to_string data;
          restart = is_true (field data ''restart'');
          env = install_env_vars to_string data
      in case runLocalInstallSh ie args env of
           Inr res \<Rightarrow>
             wsSend sock (InstallResult rid True (Some (snd res)) None)
             @ (if restart then [RestartSelfIn 500] else [])
         | Inl msg \<Rightarrow>
             wsSend sock (InstallResult rid False None (Some (if msg \<noteq> [] then msg else ''Error''))))"

text \<open>\<^verbatim>\<open>handleMessage\<close> on the decoded message; \<open>None\<close> is a payload that does not parse.\<close>

definition handleMessage ::
  "config \<Rightarrow> host_env \<Rightarrow> install_env \<Rightarrow> (json \<Rightarrow> string) \<Rightarrow> int \<Rightarrow> readyState option \<Rightarrow> json option
     \<Rightarrow> effect list" where
  "handleMessage cfg h ie to_string now sock data =
     (case data of
        None \<Rightarrow> []
      | Some d \<Rightarrow>
          let ty = field data ''type''; rid = field data ''id'' in
          if ty = Some (JStr ''ping'') then wsSend sock (Pong now)
          else if ty = Some (JStr ''getSnapshot'') then
            (let snap = takeSnapshot cfg h
             in SetLastSnapshot snap # wsSend sock (Snapshot rid snap))
          else if ty = Some (JStr ''refresh'') then
            (let snap = takeSnapshot cfg h
             in SetLastSnapshot snap
                # wsSend sock (Ok rid (takenAt snap) (length (services snap)))
                @ wsSend sock (Snapshot None snap))
          else if ty = Some (JStr ''runInstall'') then handle_runInstall ie to_string sock data
          else [])"

section \<open>Example inputs\<close>

text \<open>
  A host whose three listing commands answer with a few lines each, and which compares
  strings by code units; a configuration that filters, and one that does not.
\<close>

definition example_systemctl_out :: string where
  "example_systemctl_out =
     ''Id=nginx.service'' @ nl @ ''ActiveState=active'' @ nl @ ''SubState=running'' @ nl @ nl
     @ ''Id=foo.service'' @ nl @ ''ActiveState=inactive'' @ nl @ nl
     @ ''Id=Foo.service'' @ nl @ nl
     @ ''Id=dbus.socket'' @ nl"

definition example_launchctl_out :: string where
  "example_launchctl_out =
     ''PID Status Label'' @ nl @ ''123 0 com.b'' @ nl @ ''- 0 com.a'' @ nl"

definition example_docker_out :: string where
  "example_docker_out = ''abc123|web|Up 3 hours'' @ nl @ ''def456|api|Exited (1)'' @ nl"

definition example_host :: "platform_id \<Rightarrow> host_env" where
  "example_host p =
     \<lparr> HOSTNAME = ''Box'', SYSTEM_ID = ''sys-1'', process_platform = p,
       toISOString = ''2024-01-01T00:00:00.000Z'',
       execCmd = (\<lambda>cmd. if take 9 cmd = ''systemctl'' then example_systemctl_out
                        else if take 9 cmd = ''launchctl'' then example_launchctl_out
                        else if take 6 cmd = ''docker'' then example_docker_out
                        else []),
       localeCompare = ordinal_compare,
       toNumber = (\<lambda>s. if s = ''0'' then Some 0 else None) \<rparr>"

text \<open>
  A comparator that ignores case, as a collation does at its first level, and a host that
  sorts with it and lists two units.
\<close>

definition caseless_compare :: "string \<Rightarrow> string \<Rightarrow> int" where
  "caseless_compare a b = ordinal_compare (toLowerCase a) (toLowerCase b)"

definition collating_host :: host_env where
  "collating_host =
     (example_host Linux)
       \<lparr> execCmd := (\<lambda>cmd. ''Id=B.service'' @ nl @ nl @ ''Id=a.service'' @ nl),
         localeCompare := caseless_compare \<rparr>"

definition example_config :: config where
  "example_config =
     \<lparr> include_names = [],
       exclude_names = [],
       ws_conf = \<lparr> url = ''wss://collector.example/agent'', token = [], heartbeatSec = Some 1,
                   reconnectBaseMs = Some 1000, reconnectMaxMs = Some 30000 \<rparr>,
       reporting = \<lparr> intervalSec = Some 1, sendOnConnect = True \<rparr>,
       docker = \<lparr> enabled = True, binary = ''docker'' \<rparr>,
       systemId_conf = None \<rparr>"

definition example_filter_config :: config where
  "example_filter_config =
     example_config\<lparr> include_names := [''nginx.service'', ''com.b''],
                      exclude_names := [''docker:web''] \<rparr>"

text \<open>
  Two states of the connection manager under the example configuration: after three
  close events in a row, and after the socket has opened at time 1000.
\<close>

definition example_closed :: agent_state where
  "example_closed =
     \<lparr> ws = Some CLOSED, wsTimerHeartbeat = None, wsTimerReconnect = Some 0, lastPongAt = 0,
       reconnectAttempts = 3, timeouts = [(0, 2100)], intervals = [], next_handle = 1 \<rparr>"

definition example_open :: agent_state where
  "example_open =
     \<lparr> ws = Some OPEN, wsTimerHeartbeat = Some 0, wsTimerReconnect = None, lastPongAt = 1000,
       reconnectAttempts = 0, timeouts = [], intervals = [(0, 1000)], next_handle = 1 \<rparr>"

text \<open>
  An identity environment with three candidate paths, and two file systems: one where a
  persisted identity exists at the second candidate, one where none exists, the system
  path cannot be written and the machine identifier is present.
\<close>

definition example_id_env :: id_env where
  "example_id_env =
     \<lparr> SVC_AGENT_ID_PATH = [],
       cwd_id_file = ''/srv/agent/.tds-svc-agent.id'',
       dirname_id_file = ''/opt/agent/.tds-svc-agent.id'',
       interface_macs = Some [''00:00:00:00:00:00'', ''52:54:00:12:34:56''],
       sha256_hex = (\<lambda>s. replicate 64 CHR ''a''),
       randomUUID = ''123e4567-e89b-42d3-a456-426614174000'' \<rparr>"

definition example_fs_persisted :: filesystem where
  "example_fs_persisted =
     \<lparr> files = [''/srv/agent/.tds-svc-agent.id'' \<mapsto> (''abc-123'' @ nl, 0x1A4)],
       read_throws = (\<lambda>p. False),
       write_throws = (\<lambda>p. False),
       umask = 0x12 \<rparr>"

definition example_fs_fresh :: filesystem where
  "example_fs_fresh =
     \<lparr> files = [''/etc/machine-id'' \<mapsto> (''0123abcd'' @ nl, 0x124)],
       read_throws = (\<lambda>p. False),
       write_throws = (\<lambda>p. p = ''/etc/tds-svc-agent.id''),
       umask = 0x12 \<rparr>"

text \<open>
  An installer that exits 1 with text on its standard error when the variable \<open>FAIL\<close> is
  set, and exits 0 with text on both streams otherwise; two \<open>runInstall\<close> messages.
\<close>

definition example_install :: install_env where
  "example_install =
     \<lparr> installSh = ''/opt/agent/scripts/install.sh'',
       installSh_exists = True,
       spawn = (\<lambda>cmd env.
         if map_of env ''FAIL'' = Some ''1''
         then \<lparr> code = Some 1, out = [], err = ''boom'' \<rparr>
         else \<lparr> code = Some 0, out = ''ok'', err = ''warn'' \<rparr>) \<rparr>"

definition example_to_string :: "json \<Rightarrow> string" where
  "example_to_string j = (case j of JStr s \<Rightarrow> s | _ \<Rightarrow> ''[object Object]'')"

definition example_install_msg :: "json option" where
  "example_install_msg =
     Some (JObj [(''type'', JStr ''runInstall''), (''id'', JStr ''r1''),
                 (''args'', JArr []), (''restart'', JBool False)])"

definition example_failing_msg :: "json option" where
  "example_failing_msg =
     Some (JObj [(''type'', JStr ''runInstall''), (''id'', JStr ''r2''),
                 (''args'', JArr []), (''restart'', JBool True),
                 (''env'', JObj [(''FAIL'', JStr ''1'')])])"

section \<open>Properties of the identifiers\<close>






















section \<open>Properties of the sort\<close>

lemma set_insort_cmp: "set (insort_cmp cmp x ys) = insert x (set ys)"
  by (induction ys) auto

lemma set_foldl_insort:
  "set (foldl (\<lambda>acc x. insort_cmp cmp x acc) acc xs) = set acc \<union> set xs"
  by (induction xs arbitrary: acc) (auto simp: set_insort_cmp)

lemma set_sort_cmp: "set (sort_cmp cmp xs) = set xs"
  by (simp add: sort_cmp_def set_foldl_insort)

lemma sorted_insort_cmp:
  assumes "consistent cmp" and "sorted_wrt (\<lambda>a b. cmp a b \<le> 0) ys"
  shows "sorted_wrt (\<lambda>a b. cmp a b \<le> 0) (insort_cmp cmp x ys)"
  using assms(2)
proof (induction ys)
  case Nil
  then show ?case by simp
next
  case (Cons y ys)
  from assms(1) have flip: "\<And>a b. (cmp a b < 0) = (0 < cmp b a)"
    and trans: "\<And>a b c. cmp a b \<le> 0 \<Longrightarrow> cmp b c \<le> 0 \<Longrightarrow> cmp a c \<le> 0"
    unfolding consistent_def by blast+
  show ?case
  proof (cases "cmp x y < 0")
    case True
    then have xy: "cmp x y \<le> 0" by simp
    have "cmp x z \<le> 0" if "z \<in> set ys" for z
      using Cons.prems that trans[OF xy] by auto
    with True xy Cons.prems show ?thesis by auto
  next
    case False
    then have "\<not> 0 < cmp y x" using flip by simp
    then have yx: "cmp y x \<le> 0" by simp
    with False Cons show ?thesis by (auto simp: set_insort_cmp)
  qed
qed

lemma sorted_foldl_insort:
  assumes "consistent cmp" and "sorted_wrt (\<lambda>a b. cmp a b \<le> 0) acc"
  shows "sorted_wrt (\<lambda>a b. cmp a b \<le> 0) (foldl (\<lambda>acc x. insort_cmp cmp x acc) acc xs)"
  using assms(2) by (induction xs arbitrary: acc) (simp_all add: sorted_insort_cmp[OF assms(1)])

lemma sorted_sort_cmp:
  "consistent cmp \<Longrightarrow> sorted_wrt (\<lambda>a b. cmp a b \<le> 0) (sort_cmp cmp xs)"
  unfolding sort_cmp_def by (rule sorted_foldl_insort) simp_all

lemma consistent_by_service: "consistent (localeCompare h) \<Longrightarrow> consistent (by_service h)"
  unfolding consistent_def by_service_def by blast

lemma consistent_ordinal: "consistent ordinal_compare"
proof -
  have total: "ordinal_le a b \<or> ordinal_le b a" for a b
    by (induction a b rule: ordinal_le.induct) auto
  have nil: "ordinal_le a [] \<longleftrightarrow> a = []" for a
    by (cases a) simp_all
  have antisym: "ordinal_le a b \<Longrightarrow> ordinal_le b a \<Longrightarrow> a = b" for a b
    by (induction a b rule: ordinal_le.induct) (auto simp: nil)
  have trans: "ordinal_le a b \<Longrightarrow> ordinal_le b c \<Longrightarrow> ordinal_le a c" for a b c
  proof (induction a b arbitrary: c rule: ordinal_le.induct)
    case (1 ys)
    then show ?case by simp
  next
    case (2 x xs)
    then show ?case by simp
  next
    case (3 x xs y ys)
    then show ?case by (cases c) auto
  qed
  have refl: "ordinal_le a a" for a using total by blast
  have le_iff: "(ordinal_compare a b \<le> 0) = ordinal_le a b" for a b
    using refl by (auto simp: ordinal_compare_def)
  have lt_iff: "(ordinal_compare a b < 0) = (ordinal_le a b \<and> a \<noteq> b)" for a b
    by (auto simp: ordinal_compare_def)
  have gt_iff: "(0 < ordinal_compare a b) = (\<not> ordinal_le a b)" for a b
    using refl by (auto simp: ordinal_compare_def)
  show ?thesis
    unfolding consistent_def le_iff lt_iff gt_iff
    using total antisym trans by blast
qed

section \<open>Properties of the enumerators\<close>

text \<open>What every record of the two service-manager enumerators satisfies.\<close>

lemma systemd_section_inv:
  assumes "r \<in> set (systemd_section cfg h acc sec)"
  shows "r \<in> set acc \<or>
         ((include_names cfg = [] \<or> service r \<in> set (include_names cfg)) \<and>
          service r \<notin> set (exclude_names cfg) \<and> id' r = mkId h (service r))"
  using assms
  by (auto simp: systemd_section_def systemd_record_def Let_def split: option.splits if_splits)

lemma launchd_line_inv:
  assumes "r \<in> set (launchd_line cfg h acc line)"
  shows "r \<in> set acc \<or>
         ((include_names cfg = [] \<or> service r \<in> set (include_names cfg)) \<and>
          service r \<notin> set (exclude_names cfg) \<and> id' r = mkId h (service r))"
  using assms
  by (auto simp: launchd_line_def launchd_record_def Let_def split: list.splits if_splits)

lemma foldl_inv:
  assumes "\<And>r acc x. r \<in> set (f acc x) \<Longrightarrow> r \<in> set acc \<or> Q r"
    and "r \<in> set (foldl f acc xs)"
  shows "r \<in> set acc \<or> Q r"
  using assms(2)
proof (induction xs arbitrary: acc)
  case Nil
  then show ?case by simp
next
  case (Cons x xs)
  then have "r \<in> set (f acc x) \<or> Q r" by simp
  with assms(1) show ?case by blast
qed

lemma listSystemdServices_inv:
  assumes "r \<in> set (listSystemdServices cfg h)"
  shows "(include_names cfg = [] \<or> service r \<in> set (include_names cfg)) \<and>
         service r \<notin> set (exclude_names cfg) \<and> id' r = mkId h (service r)"
proof -
  from assms obtain secs where mem: "r \<in> set (foldl (systemd_section cfg h) [] secs)"
    by (auto simp: listSystemdServices_def Let_def set_sort_cmp)
  let ?Q = "\<lambda>r. (include_names cfg = [] \<or> service r \<in> set (include_names cfg)) \<and>
         service r \<notin> set (exclude_names cfg) \<and> id' r = mkId h (service r)"
  have stp: "\<And>r acc x. r \<in> set (systemd_section cfg h acc x) \<Longrightarrow> r \<in> set acc \<or> ?Q r"
    by (rule systemd_section_inv)
  from foldl_inv[where f = "systemd_section cfg h" and Q = ?Q, OF stp mem]
  show ?thesis by simp
qed

lemma listLaunchdServices_inv:
  assumes "r \<in> set (listLaunchdServices cfg h)"
  shows "(include_names cfg = [] \<or> service r \<in> set (include_names cfg)) \<and>
         service r \<notin> set (exclude_names cfg) \<and> id' r = mkId h (service r)"
proof -
  from assms obtain ls where mem: "r \<in> set (foldl (launchd_line cfg h) [] ls)"
    by (auto simp: listLaunchdServices_def Let_def set_sort_cmp)
  let ?Q = "\<lambda>r. (include_names cfg = [] \<or> service r \<in> set (include_names cfg)) \<and>
         service r \<notin> set (exclude_names cfg) \<and> id' r = mkId h (service r)"
  have stp: "\<And>r acc x. r \<in> set (launchd_line cfg h acc x) \<Longrightarrow> r \<in> set acc \<or> ?Q r"
    by (rule launchd_line_inv)
  from foldl_inv[where f = "launchd_line cfg h" and Q = ?Q, OF stp mem]
  show ?thesis by simp
qed

lemma docker_record_service:
  "service (docker_record h l) = ''docker:'' @ interpolate (at_index (split ''|'' l) 1)"
  by (simp add: docker_record_def Let_def)




lemma mkId_eq_iff: "mkId h a = mkId h b \<longleftrightarrow> slug a = slug b"
  by (simp add: mkId_def)

section \<open>Claims on the enumerators\<close>

lemma example_systemd_filtered:
  "map service (listSystemdServices example_filter_config (example_host Linux)) = [''nginx.service'']"
  by code_simp

lemma example_launchd_filtered:
  "map service (listLaunchdServices example_filter_config (example_host Darwin)) = [''com.b'']"
  by code_simp

lemma example_docker_services:
  "map service (listDockerContainers example_filter_config (example_host Linux))
     = [''docker:web'', ''docker:api'']"
  by code_simp

lemma example_docker_all:
  "map service (listDockerContainers example_config (example_host Linux))
     = [''docker:web'', ''docker:api'']"
  by code_simp

lemma example_systemd_all:
  "map service (listSystemdServices example_config (example_host Linux))
     = [''Foo.service'', ''foo.service'', ''nginx.service'']"
  by code_simp

lemma example_launchd_all:
  "map service (listLaunchdServices example_config (example_host Linux)) = [''com.a'', ''com.b'']"
  by code_simp




text \<open>
  C1, as the code has it. Every record in the output of the Linux and of the macOS
  service-manager enumerator has passed the include list (when that list is not empty,
  its name is listed there) and the exclude list (its name is not listed there). The
  container enumerator applies neither list: its output is the same whatever the two
  lists hold.
\<close>

theorem service_managers_filter:
  "(\<forall>r \<in> set (listSystemdServices cfg h) \<union> set (listLaunchdServices cfg h).
      (include_names cfg \<noteq> [] \<longrightarrow> service r \<in> set (include_names cfg)) \<and>
      service r \<notin> set (exclude_names cfg)) \<and>
   listDockerContainers (cfg\<lparr> include_names := inc, exclude_names := exc \<rparr>) h
     = listDockerContainers cfg h"
proof -
  have "listDockerContainers (cfg\<lparr> include_names := inc, exclude_names := exc \<rparr>) h
          = listDockerContainers cfg h"
    by (simp add: listDockerContainers_def docker_lines_def docker_cmd_def)
  then show ?thesis
    using listSystemdServices_inv listLaunchdServices_inv by blast
qed

theorem service_managers_filter_witness:
  "include_names example_filter_config \<noteq> [] \<and>
   map service (listSystemdServices example_filter_config (example_host Linux)) = [''nginx.service''] \<and>
   map service (listLaunchdServices example_filter_config (example_host Darwin)) = [''com.b''] \<and>
   ''nginx.service'' \<in> set (include_names example_filter_config) \<and>
   ''nginx.service'' \<notin> set (exclude_names example_filter_config) \<and>
   listDockerContainers (example_filter_config\<lparr> include_names := [], exclude_names := [] \<rparr>)
       (example_host Linux)
     = listDockerContainers example_filter_config (example_host Linux)"
proof -
  have "include_names example_filter_config = [''nginx.service'', ''com.b'']"
    and "exclude_names example_filter_config = [''docker:web'']"
    by (simp_all add: example_filter_config_def)
  with service_managers_filter[of example_filter_config "example_host Linux" "[]" "[]"]
    example_systemd_filtered example_launchd_filtered
  show ?thesis by simp
qed

text \<open>
  C1 as stated fails on the container enumerator: with a non-empty include list that
  does not name the container and an exclude list that does, the record is in the output.
\<close>

theorem docker_not_filtered:
  "map service (listDockerContainers example_filter_config (example_host Linux))
     = [''docker:web'', ''docker:api''] \<and>
   include_names example_filter_config \<noteq> [] \<and>
   ''docker:web'' \<notin> set (include_names example_filter_config) \<and>
   ''docker:web'' \<in> set (exclude_names example_filter_config)"
  using example_docker_services by (simp add: example_filter_config_def)




text \<open>
  C4, as the code has it. When the runtime's \<open>localeCompare\<close> is a consistent comparator,
  the output of the Linux and of the macOS service-manager enumerator is sorted by
  service name in the order of \<open>localeCompare\<close>. The container enumerator does not sort:
  its records come in the order of the listing's lines.
\<close>

theorem service_managers_sorted:
  assumes "consistent (localeCompare h)"
  shows "sorted_wrt (\<lambda>a b. localeCompare h (service a) (service b) \<le> 0) (listSystemdServices cfg h) \<and>
         sorted_wrt (\<lambda>a b. localeCompare h (service a) (service b) \<le> 0) (listLaunchdServices cfg h) \<and>
         map service (listDockerContainers cfg h)
           = (if enabled (docker cfg)
              then map (\<lambda>l. ''docker:'' @ interpolate (at_index (split ''|'' l) 1)) (docker_lines cfg h)
              else [])"
proof -
  from assms have c: "consistent (by_service h)" by (rule consistent_by_service)
  have s: "sorted_wrt (\<lambda>a b. by_service h a b \<le> 0) (sort_cmp (by_service h) xs)" for xs
    using c by (rule sorted_sort_cmp)
  have "sorted_wrt (\<lambda>a b. by_service h a b \<le> 0) (listSystemdServices cfg h)"
    unfolding listSystemdServices_def Let_def by (rule s)
  moreover have "sorted_wrt (\<lambda>a b. by_service h a b \<le> 0) (listLaunchdServices cfg h)"
    unfolding listLaunchdServices_def Let_def by (rule s)
  moreover have "map service (listDockerContainers cfg h)
           = (if enabled (docker cfg)
              then map (\<lambda>l. ''docker:'' @ interpolate (at_index (split ''|'' l) 1)) (docker_lines cfg h)
              else [])"
    by (simp add: listDockerContainers_def docker_record_service comp_def)
  ultimately show ?thesis by (simp add: by_service_def)
qed

theorem service_managers_sorted_witness:
  "consistent (localeCompare (example_host Linux)) \<and>
   map service (listSystemdServices example_config (example_host Linux))
     = [''Foo.service'', ''foo.service'', ''nginx.service''] \<and>
   map service (listLaunchdServices example_config (example_host Linux)) = [''com.a'', ''com.b''] \<and>
   sorted_wrt (\<lambda>a b. localeCompare (example_host Linux) (service a) (service b) \<le> 0)
     (listSystemdServices example_config (example_host Linux)) \<and>
   sorted_wrt (\<lambda>a b. localeCompare (example_host Linux) (service a) (service b) \<le> 0)
     (listLaunchdServices example_config (example_host Linux))"
proof -
  have c: "consistent (localeCompare (example_host Linux))"
    using consistent_ordinal by (simp add: example_host_def)
  from service_managers_sorted[OF c, of example_config] c
    example_systemd_all example_launchd_all
  show ?thesis by blast
qed

text \<open>
  On a host whose \<open>localeCompare\<close> ignores case, the unit \<open>a.service\<close> comes out before
  \<open>B.service\<close>, against the order of the code units.
\<close>

lemma collating_host_not_ordinal:
  "map service (listSystemdServices example_config collating_host) = [''a.service'', ''B.service'']
   \<and> \<not> ordinal_le ''a.service'' ''B.service''"
  by code_simp

text \<open>
  C4 as stated fails on the container enumerator: the two containers come out in the
  order listed, \<open>docker:web\<close> before \<open>docker:api\<close>, which is descending by code units.
\<close>

theorem docker_not_sorted:
  "map service (listDockerContainers example_config (example_host Linux))
     = [''docker:web'', ''docker:api''] \<and>
   \<not> ordinal_le ''docker:web'' ''docker:api''"
  using example_docker_all by simp

section \<open>Claims on the timing parameters\<close>

lemma reconnect_base_floor: "100 \<le> reconnect_base cfg"
  by (simp add: reconnect_base_def)

lemma reconnect_max_floor: "reconnect_base cfg \<le> reconnect_max cfg"
  by (simp add: reconnect_max_def)

lemma heartbeat_interval_floor: "5000 \<le> heartbeat_interval cfg"
proof -
  have "(5::rat) \<le> max 5 (or_default (heartbeatSec (ws_conf cfg)) 25)" by simp
  then show ?thesis unfolding heartbeat_interval_def by linarith
qed

lemma report_period_floor: "5000 \<le> report_period cfg"
proof -
  have "(5::rat) \<le> max 5 (or_default (intervalSec (reporting cfg)) 30)" by simp
  then show ?thesis unfolding report_period_def by linarith
qed

lemma timer_delay_pos: "1 \<le> timer_delay d"
proof (cases "d < 1 \<or> 2147483647 < d")
  case True
  then show ?thesis by (simp add: timer_delay_def)
next
  case False
  then have "1 \<le> d" by simp
  then have "1 \<le> \<lfloor>d\<rfloor>" by (simp add: le_floor_iff)
  with False show ?thesis by (simp add: timer_delay_def)
qed









lemma clamped_floors:
  "5000 \<le> report_period cfg \<and> 100 \<le> reconnect_base cfg \<and>
   reconnect_base cfg \<le> reconnect_max cfg \<and> 5000 \<le> heartbeat_interval cfg"
  using report_period_floor reconnect_base_floor reconnect_max_floor heartbeat_interval_floor
  by blast

text \<open>
  C10: the reporting period, the reconnect base and the reconnect cap have the floors
  the claim names, and so has the interval of the staleness test. The period handed to
  the heartbeat timer has not: with a heartbeat setting of one second the timer runs
  every 1000 ms.
\<close>

theorem heartbeat_period_not_clamped:
  "heartbeatSec (ws_conf example_config) = Some 1 \<and>
   heartbeat_period example_config = 1000 \<and>
   timer_delay (heartbeat_period example_config) = 1000 \<and>
   heartbeat_interval example_config = 5000 \<and>
   report_period example_config = 5000"
  by (simp add: heartbeat_period_def heartbeat_interval_def report_period_def timer_delay_def
      or_default_def example_config_def)

section \<open>Claims on the connection manager\<close>

text \<open>What every handler keeps: the runtime holds the reconnect timeout the variable names.\<close>

lemma stopHeartbeat_keeps [simp]:
  "timeouts (stopHeartbeat s) = timeouts s"
  "wsTimerReconnect (stopHeartbeat s) = wsTimerReconnect s"
  "reconnectAttempts (stopHeartbeat s) = reconnectAttempts s"
  "ws (stopHeartbeat s) = ws s"
  by (simp_all add: stopHeartbeat_def split: option.splits)

lemma startHeartbeat_keeps [simp]:
  "timeouts (startHeartbeat cfg s) = timeouts s"
  "wsTimerReconnect (startHeartbeat cfg s) = wsTimerReconnect s"
  "reconnectAttempts (startHeartbeat cfg s) = reconnectAttempts s"
  "ws (startHeartbeat cfg s) = ws s"
  by (simp_all add: startHeartbeat_def Let_def)

lemma startHeartbeat_running:
  "\<exists>t. wsTimerHeartbeat (startHeartbeat cfg s) = Some t \<and>
       (t, heartbeat_period cfg) \<in> set (intervals (startHeartbeat cfg s))"
  by (simp add: startHeartbeat_def Let_def)

lemma connectWS_keeps [simp]:
  "timeouts (connectWS cfg s) = timeouts s"
  "wsTimerReconnect (connectWS cfg s) = wsTimerReconnect s"
  "reconnectAttempts (connectWS cfg s) = reconnectAttempts s"
  "wsTimerHeartbeat (connectWS cfg s) = wsTimerHeartbeat s"
  "intervals (connectWS cfg s) = intervals s"
  by (simp_all add: connectWS_def)

lemma connectWS_ws: "ws (connectWS cfg s) = Some OPEN \<Longrightarrow> ws s = Some OPEN"
  by (simp add: connectWS_def split: if_splits)

lemma scheduleReconnect_inv: "reconnect_inv s \<Longrightarrow> reconnect_inv (scheduleReconnect cfg rnd s)"
  by (auto simp: reconnect_inv_def scheduleReconnect_def Let_def split: option.splits)

lemma step_reconnect_inv:
  assumes "reconnect_inv s" and "step cfg ev s = Some s'"
  shows "reconnect_inv s'"
proof (cases ev)
  case (OnOpen now)
  with assms show ?thesis by (auto simp: reconnect_inv_def on_open_def)
next
  case (OnMessage m)
  with assms show ?thesis by auto
next
  case (OnPong now)
  with assms show ?thesis by (auto simp: reconnect_inv_def on_pong_def)
next
  case (OnClose rnd)
  from assms(1) have "reconnect_inv ((stopHeartbeat (s\<lparr>ws := Some CLOSED\<rparr>))
      \<lparr>reconnectAttempts := reconnectAttempts (stopHeartbeat (s\<lparr>ws := Some CLOSED\<rparr>)) + 1\<rparr>)"
    by (simp add: reconnect_inv_def)
  then have "reconnect_inv (on_close cfg rnd (s\<lparr>ws := Some CLOSED\<rparr>))"
    unfolding on_close_def Let_def by (rule scheduleReconnect_inv)
  with assms(2) OnClose show ?thesis by simp
next
  case OnError
  with assms show ?thesis by auto
next
  case (ReconnectTimer t)
  with assms have mem: "t \<in> set (map fst (timeouts s))"
    and s': "s' = reconnect_callback cfg (s\<lparr>timeouts := filter (\<lambda>p. fst p \<noteq> t) (timeouts s)\<rparr>)"
    by (auto split: if_splits)
  from assms(1) mem have one: "map fst (timeouts s) = [t]"
    by (auto simp: reconnect_inv_def split: option.splits)
  then have "filter (\<lambda>p. fst p \<noteq> t) (timeouts s) = []"
    by (cases "timeouts s") auto
  with s' show ?thesis by (simp add: reconnect_inv_def reconnect_callback_def)
next
  case (HeartbeatTimer t now)
  with assms show ?thesis
    by (auto simp: reconnect_inv_def heartbeat_tick_def split: if_splits)
next
  case Signal
  with assms show ?thesis
    by (auto simp: reconnect_inv_def shutdown_def Let_def split: option.splits readyState.splits)
qed

lemma step_heartbeat_inv:
  assumes "heartbeat_inv cfg s" and "step cfg ev s = Some s'"
  shows "heartbeat_inv cfg s'"
proof (cases ev)
  case (OnOpen now)
  with assms(2) have "s' = startHeartbeat cfg (s\<lparr>ws := Some OPEN, reconnectAttempts := 0, lastPongAt := now\<rparr>)"
    by (simp add: on_open_def)
  then show ?thesis using startHeartbeat_running unfolding heartbeat_inv_def by blast
next
  case (OnMessage m)
  with assms show ?thesis by auto
next
  case (OnPong now)
  with assms show ?thesis by (auto simp: heartbeat_inv_def on_pong_def)
next
  case (OnClose rnd)
  with assms(2) have "ws s' = Some CLOSED"
    by (auto simp: on_close_def Let_def scheduleReconnect_def)
  then show ?thesis by (simp add: heartbeat_inv_def)
next
  case OnError
  with assms show ?thesis by auto
next
  case (ReconnectTimer t)
  with assms(2) have s': "s' = reconnect_callback cfg (s\<lparr>timeouts := filter (\<lambda>p. fst p \<noteq> t) (timeouts s)\<rparr>)"
    by (auto split: if_splits)
  show ?thesis
  proof (cases "ws s' = Some OPEN")
    case True
    with s' have "ws s = Some OPEN"
      by (auto simp: reconnect_callback_def dest: connectWS_ws)
    with assms(1) s' show ?thesis by (auto simp: heartbeat_inv_def reconnect_callback_def)
  next
    case False
    then show ?thesis by (simp add: heartbeat_inv_def)
  qed
next
  case (HeartbeatTimer t now)
  with assms show ?thesis
    by (auto simp: heartbeat_inv_def heartbeat_tick_def split: if_splits)
next
  case Signal
  with assms(2) have "ws s' \<noteq> Some OPEN"
    by (auto simp: shutdown_def Let_def split: option.splits readyState.splits)
  then show ?thesis by (simp add: heartbeat_inv_def)
qed

lemma boot_invs: "reconnect_inv (boot_state cfg) \<and> heartbeat_inv cfg (boot_state cfg)"
  by (simp add: reconnect_inv_def heartbeat_inv_def boot_state_def connectWS_def)

lemma run_invs:
  assumes "reconnect_inv s \<and> heartbeat_inv cfg s" and "run cfg evs s = Some s'"
  shows "reconnect_inv s' \<and> heartbeat_inv cfg s'"
  using assms
proof (induction evs arbitrary: s)
  case Nil
  then show ?case by simp
next
  case (Cons e es)
  from Cons.prems(2) obtain s1 where s1: "step cfg e s = Some s1" and r: "run cfg es s1 = Some s'"
    by (auto split: option.splits)
  from Cons.prems(1) s1 have "reconnect_inv s1 \<and> heartbeat_inv cfg s1"
    using step_reconnect_inv step_heartbeat_inv by blast
  from Cons.IH[OF this r] show ?case .
qed

lemma reachable_invs:
  "run cfg evs (boot_state cfg) = Some s \<Longrightarrow> reconnect_inv s \<and> heartbeat_inv cfg s"
  using boot_invs run_invs by blast

lemma step_attempts:
  assumes "step cfg ev s = Some s'"
  shows "case ev of OnOpen now \<Rightarrow> reconnectAttempts s' = 0
         | _ \<Rightarrow> reconnectAttempts s \<le> reconnectAttempts s'"
proof (cases ev)
  case (OnOpen now)
  with assms show ?thesis by (auto simp: on_open_def)
next
  case (OnMessage m)
  with assms show ?thesis by auto
next
  case (OnPong now)
  with assms show ?thesis by (auto simp: on_pong_def)
next
  case (OnClose rnd)
  with assms show ?thesis
    by (auto simp: on_close_def Let_def scheduleReconnect_def)
next
  case OnError
  with assms show ?thesis by auto
next
  case (ReconnectTimer t)
  with assms show ?thesis by (auto simp: reconnect_callback_def split: if_splits)
next
  case (HeartbeatTimer t now)
  with assms show ?thesis by (auto simp: heartbeat_tick_def split: if_splits)
next
  case Signal
  with assms show ?thesis
    by (auto simp: shutdown_def Let_def split: option.splits readyState.splits)
qed

lemma next_tick_bounds:
  assumes "1 \<le> P" and "t0 < T"
  shows "T \<le> next_tick t0 P T \<and> next_tick t0 P T < T + P \<and>
         (\<exists>k. 1 \<le> k \<and> next_tick t0 P T = t0 + k * P)"
proof -
  let ?a = "T - t0 + P - 1"
  let ?q = "?a div P"
  from assms have P: "0 < P" by simp
  from assms have "P \<le> ?a" by simp
  then have "P div P \<le> ?q" by (rule zdiv_mono1) (rule P)
  with P have q1: "1 \<le> ?q" by simp
  then have nt: "next_tick t0 P T = t0 + P * ?q" by (simp add: next_tick_def)
  have eq: "?a = P * ?q + ?a mod P" by simp
  have m0: "0 \<le> ?a mod P" and m1: "?a mod P < P" using P by simp_all
  from eq m0 have up: "P * ?q \<le> ?a" by linarith
  from eq m1 have lo: "?a < P * ?q + P" by linarith
  from up lo nt have "T \<le> next_tick t0 P T" and "next_tick t0 P T < T + P" by linarith+
  moreover from nt q1 have "\<exists>k. 1 \<le> k \<and> next_tick t0 P T = t0 + k * P"
    by (intro exI[of _ ?q]) (simp add: mult.commute)
  ultimately show ?thesis by blast
qed

lemma example_run_closed:
  "run example_config [OnClose (1 / 2), OnClose (1 / 4), OnClose 0] (boot_state example_config)
     = Some example_closed"
  by code_simp

lemma example_run_open:
  "run example_config [OnOpen 1000] (boot_state example_config) = Some example_open"
  by code_simp

text \<open>
  C6. In every state the connection manager can reach from boot, whatever the events and
  however many close events come in a row, the runtime holds at most one reconnect
  timeout, and holds one exactly when \<open>wsTimerReconnect\<close> is set; \<open>scheduleReconnect\<close> with
  the timer outstanding changes nothing; and a step lowers the attempts counter only if
  it is the open handler, which sets it to zero: every other step leaves it or raises it.
\<close>

theorem one_reconnect_timer:
  assumes "run cfg evs (boot_state cfg) = Some s"
  shows "length (timeouts s) \<le> 1 \<and>
         (timeouts s \<noteq> []) = (wsTimerReconnect s \<noteq> None) \<and>
         (wsTimerReconnect s \<noteq> None \<longrightarrow> scheduleReconnect cfg rnd s = s) \<and>
         (\<forall>ev s'. step cfg ev s = Some s' \<longrightarrow>
            (case ev of OnOpen now \<Rightarrow> reconnectAttempts s' = 0
             | _ \<Rightarrow> reconnectAttempts s \<le> reconnectAttempts s'))"
proof -
  from reachable_invs[OF assms] have inv: "reconnect_inv s" by simp
  then have m: "map fst (timeouts s) = (case wsTimerReconnect s of None \<Rightarrow> [] | Some t \<Rightarrow> [t])"
    by (simp add: reconnect_inv_def)
  have "length (timeouts s) = length (map fst (timeouts s))" by simp
  also have "\<dots> \<le> 1" unfolding m by (simp split: option.splits)
  finally have a: "length (timeouts s) \<le> 1" .
  have "(timeouts s \<noteq> []) = (map fst (timeouts s) \<noteq> [])" by simp
  also have "\<dots> = (wsTimerReconnect s \<noteq> None)" unfolding m by (simp split: option.splits)
  finally have b: "(timeouts s \<noteq> []) = (wsTimerReconnect s \<noteq> None)" .
  have c: "wsTimerReconnect s \<noteq> None \<longrightarrow> scheduleReconnect cfg rnd s = s"
    by (simp add: scheduleReconnect_def)
  from a b c step_attempts show ?thesis by blast
qed

theorem one_reconnect_timer_witness:
  "run example_config [OnClose (1 / 2), OnClose (1 / 4), OnClose 0] (boot_state example_config)
     = Some example_closed \<and>
   timeouts example_closed = [(0, 2100)] \<and>
   length (timeouts example_closed) \<le> 1 \<and>
   wsTimerReconnect example_closed \<noteq> None \<and>
   reconnectAttempts example_closed = 3 \<and>
   scheduleReconnect example_config (3 / 4) example_closed = example_closed \<and>
   step example_config (OnClose (3 / 4)) example_closed
     = Some (example_closed\<lparr> reconnectAttempts := 4 \<rparr>) \<and>
   map_option reconnectAttempts (step example_config (OnOpen 5000) example_closed) = Some 0"
proof -
  have e: "timeouts example_closed = [(0, 2100)]" "wsTimerReconnect example_closed \<noteq> None"
    "reconnectAttempts example_closed = 3"
    by (simp_all add: example_closed_def)
  have s1: "step example_config (OnClose (3 / 4)) example_closed
              = Some (example_closed\<lparr> reconnectAttempts := 4 \<rparr>)"
    by (simp add: example_closed_def on_close_def stopHeartbeat_def scheduleReconnect_def)
  have s2: "map_option reconnectAttempts (step example_config (OnOpen 5000) example_closed) = Some 0"
    by (simp add: on_open_def)
  from one_reconnect_timer[OF example_run_closed, of "3 / 4"] example_run_closed e s1 s2
  show ?thesis by simp
qed

lemma timer_period_le_interval:
  "of_int (timer_delay (heartbeat_period cfg)) \<le> heartbeat_interval cfg"
proof (cases "heartbeat_period cfg < 1 \<or> 2147483647 < heartbeat_period cfg")
  case True
  then have "timer_delay (heartbeat_period cfg) = 1" by (simp add: timer_delay_def)
  with heartbeat_interval_floor[of cfg] show ?thesis by simp
next
  case False
  let ?raw = "or_default (heartbeatSec (ws_conf cfg)) 25"
  from False have td: "timer_delay (heartbeat_period cfg) = \<lfloor>?raw * 1000\<rfloor>"
    by (simp add: timer_delay_def heartbeat_period_def)
  have a: "of_int \<lfloor>?raw * 1000\<rfloor> \<le> ?raw * 1000" by (rule of_int_floor_le)
  have "?raw \<le> max 5 ?raw" by simp
  then have b: "?raw * 1000 \<le> max 5 ?raw * 1000" by (rule mult_right_mono) simp
  from a b have "of_int \<lfloor>?raw * 1000\<rfloor> \<le> max 5 ?raw * 1000" by (rule order_trans)
  then show ?thesis by (simp only: td heartbeat_interval_def)
qed

text \<open>
  What the staleness test does, measured against the clamped \<open>interval\<close> of
  \<open>startHeartbeat\<close>. Take a state the connection manager can reach in which the socket is
  open and an acknowledgment time is recorded, and a time \<open>T\<close> at which the gap since the
  last acknowledgment exceeds twice that clamped value. Then the heartbeat timer is
  running; its first tick at or after \<open>T\<close> comes less than one period of the timer after
  \<open>T\<close>; and that tick, if nothing has changed the state before it, pings and then
  terminates the socket: it does not close it gracefully.
\<close>

lemma stale_tick_terminates:
  assumes "run cfg evs (boot_state cfg) = Some s"
    and "ws s = Some OPEN" and "lastPongAt s \<noteq> 0"
    and "heartbeat_interval cfg * 2 < of_int (T - lastPongAt s)"
    and "t0 < T"
  shows "(\<exists>t. wsTimerHeartbeat s = Some t \<and> (t, heartbeat_period cfg) \<in> set (intervals s)) \<and>
         T \<le> next_tick t0 (timer_delay (heartbeat_period cfg)) T \<and>
         next_tick t0 (timer_delay (heartbeat_period cfg)) T < T + timer_delay (heartbeat_period cfg) \<and>
         of_int (next_tick t0 (timer_delay (heartbeat_period cfg)) T)
           < of_int T + heartbeat_interval cfg \<and>
         (\<exists>k. 1 \<le> k \<and> next_tick t0 (timer_delay (heartbeat_period cfg)) T
                          = t0 + k * timer_delay (heartbeat_period cfg)) \<and>
         snd (heartbeat_tick cfg (next_tick t0 (timer_delay (heartbeat_period cfg)) T) s)
           = [WsPing, WsTerminate] \<and>
         WsClose \<notin> set (snd (heartbeat_tick cfg (next_tick t0 (timer_delay (heartbeat_period cfg)) T) s)) \<and>
         ws (fst (heartbeat_tick cfg (next_tick t0 (timer_delay (heartbeat_period cfg)) T) s))
           = Some CLOSING"
proof -
  let ?P = "timer_delay (heartbeat_period cfg)"
  let ?now = "next_tick t0 ?P T"
  from reachable_invs[OF assms(1)] assms(2)
  have run: "\<exists>t. wsTimerHeartbeat s = Some t \<and> (t, heartbeat_period cfg) \<in> set (intervals s)"
    by (simp add: heartbeat_inv_def)
  from next_tick_bounds[OF timer_delay_pos assms(5), of "heartbeat_period cfg"]
  have nt: "T \<le> ?now" "?now < T + ?P" "\<exists>k. 1 \<le> k \<and> ?now = t0 + k * ?P"
    by blast+
  from nt(1) have "T - lastPongAt s \<le> ?now - lastPongAt s" by simp
  then have "(of_int (T - lastPongAt s) :: rat) \<le> of_int (?now - lastPongAt s)"
    by (simp only: of_int_le_iff)
  with assms(4) have stale: "heartbeat_interval cfg * 2 < of_int (?now - lastPongAt s)"
    by linarith
  have tick: "heartbeat_tick cfg ?now s = (s\<lparr> ws := Some CLOSING \<rparr>, [WsPing, WsTerminate])"
    using assms(2,3) stale by (simp add: heartbeat_tick_def)
  from nt(2) have "(of_int ?now :: rat) < of_int (T + ?P)" by (simp only: of_int_less_iff)
  with timer_period_le_interval[of cfg]
  have within: "of_int ?now < of_int T + heartbeat_interval cfg" by simp
  from run nt within tick show ?thesis by simp
qed

lemma example_open_facts:
  "ws example_open = Some OPEN \<and> lastPongAt example_open = 1000 \<and>
   heartbeatSec (ws_conf example_config) = Some 1 \<and>
   heartbeat_interval example_config * 2 = 10000 \<and>
   timer_delay (heartbeat_period example_config) = 1000"
  by (simp add: example_open_def heartbeat_interval_def heartbeat_period_def timer_delay_def
      or_default_def example_config_def)

lemma example_stale_tick:
  "next_tick 1000 1000 11001 = 12000 \<and>
   snd (heartbeat_tick example_config 12000 example_open) = [WsPing, WsTerminate] \<and>
   ws (fst (heartbeat_tick example_config 12000 example_open)) = Some CLOSING"
proof -
  have o: "ws example_open = Some OPEN" "lastPongAt example_open \<noteq> 0"
    using example_open_facts by simp_all
  have g: "heartbeat_interval example_config * 2 < of_int (11001 - lastPongAt example_open)"
    using example_open_facts by simp
  have n: "next_tick 1000 1000 11001 = 12000" by (simp add: next_tick_def)
  from stale_tick_terminates[OF example_run_open o g, of 1000] example_open_facts n
  show ?thesis by simp
qed

text \<open>
  C7: with a heartbeat setting of one second the probes go out every 1000 ms, the socket
  opens at time 1000 and no acknowledgment follows. At the tick of time 4000 the gap is
  3000 ms, more than twice the heartbeat interval, and the tick only pings; so does every
  tick up to time 11000. The first tick that terminates the socket is the one of time
  12000, nine ticks after the gap was exceeded. (An acknowledgment at time 11500 moves
  the recorded time, and the tick of time 12000 then only pings.)
\<close>

theorem heartbeat_gap_not_terminated:
  "run example_config [OnOpen 1000] (boot_state example_config) = Some example_open \<and>
   ws example_open = Some OPEN \<and> lastPongAt example_open = 1000 \<and>
   heartbeatSec (ws_conf example_config) = Some 1 \<and>
   timer_delay (heartbeat_period example_config) = 1000 \<and>
   (2 * of_int (timer_delay (heartbeat_period example_config)) :: rat)
     < of_int (4000 - lastPongAt example_open) \<and>
   heartbeat_tick example_config 4000 example_open = (example_open, [WsPing]) \<and>
   heartbeat_tick example_config 11000 example_open = (example_open, [WsPing]) \<and>
   snd (heartbeat_tick example_config 12000 example_open) = [WsPing, WsTerminate] \<and>
   snd (heartbeat_tick example_config 12000 (on_pong 11500 example_open)) = [WsPing]"
proof -
  note f = example_open_facts
  have a: "heartbeat_tick example_config 4000 example_open = (example_open, [WsPing])"
    using f by (simp add: heartbeat_tick_def)
  have b: "heartbeat_tick example_config 11000 example_open = (example_open, [WsPing])"
    using f by (simp add: heartbeat_tick_def)
  have c: "snd (heartbeat_tick example_config 12000 (on_pong 11500 example_open)) = [WsPing]"
    using f by (simp add: heartbeat_tick_def on_pong_def)
  from example_run_open f a b c example_stale_tick show ?thesis by simp
qed

section \<open>Claims on the system identity\<close>

lemma writeFirstWritable_none:
  "find (\<lambda>p. \<not> write_throws fs p) ps = None \<Longrightarrow> writeFirstWritable fs ps v = (None, fs)"
  by (induction ps) (auto simp: writeFileSync_def split: if_splits)

lemma writeFirstWritable_some:
  "find (\<lambda>p. \<not> write_throws fs p) ps = Some p \<Longrightarrow>
   writeFirstWritable fs ps v =
     (Some p, fs\<lparr> files := (files fs)(p \<mapsto>
        (v @ nl, case files fs p of None \<Rightarrow> 0x180 AND NOT (umask fs) | Some (c, m) \<Rightarrow> m)) \<rparr>)"
  by (induction ps) (auto simp: writeFileSync_def split: if_splits)

lemma created_mode_owner_only: "(0x180 AND NOT u) AND (0x3F :: 16 word) = 0"
proof -
  have "(0x180 AND NOT u) AND (0x3F :: 16 word) = (0x180 AND 0x3F) AND NOT u"
    by (simp add: ac_simps)
  also have "(0x180 AND 0x3F :: 16 word) = 0" by simp
  finally show ?thesis by simp
qed

lemma initSystemId_persisted:
  assumes "\<not> truthy (systemId_conf cfg)"
    and "truthy (readFirstExisting fs (ID_FILE_CANDIDATES ie))"
  shows "initSystemId cfg h ie fs = (the (readFirstExisting fs (ID_FILE_CANDIDATES ie)), fs)"
  using assms by (simp add: initSystemId_def Let_def)

lemma initSystemId_fresh:
  assumes "\<not> truthy (systemId_conf cfg)"
    and "\<not> truthy (readFirstExisting fs (ID_FILE_CANDIDATES ie))"
    and "initSystemId cfg h ie fs = (v, fs')"
  shows "fs' = snd (writeFirstWritable fs (ID_FILE_CANDIDATES ie) v)"
  using assms by (auto simp: initSystemId_def Let_def)

text \<open>
  C8, as the code has it. Take a resolution that does not come from the configuration
  override. If a persisted value is read from a candidate file, \<open>initSystemId\<close> returns it
  and writes nothing. Otherwise (platform identifier, hash fallback or random fallback)
  it writes the value and a newline to the first candidate path where the write
  succeeds, and to that path only, before returning it; if no write succeeds the file
  system is left as it was. The write asks for mode 0600: a file it creates has no
  permission bit for group or others, and an existing file keeps the mode it had.
\<close>

theorem initSystemId_persists:
  assumes "initSystemId cfg h ie fs = (v, fs')"
    and "\<not> truthy (systemId_conf cfg)"
  shows "(truthy (readFirstExisting fs (ID_FILE_CANDIDATES ie)) \<longrightarrow>
            fs' = fs \<and> readFirstExisting fs (ID_FILE_CANDIDATES ie) = Some v) \<and>
         (\<not> truthy (readFirstExisting fs (ID_FILE_CANDIDATES ie)) \<longrightarrow>
            (case find (\<lambda>p. \<not> write_throws fs p) (ID_FILE_CANDIDATES ie) of
               None \<Rightarrow> fs' = fs
             | Some p \<Rightarrow>
                 fs' = fs\<lparr> files := (files fs)(p \<mapsto>
                         (v @ nl, case files fs p of None \<Rightarrow> 0x180 AND NOT (umask fs)
                                                   | Some (c, m) \<Rightarrow> m)) \<rparr> \<and>
                 (files fs p = None \<longrightarrow> snd (the (files fs' p)) AND 0x3F = 0)))"
proof (cases "truthy (readFirstExisting fs (ID_FILE_CANDIDATES ie))")
  case True
  from initSystemId_persisted[OF assms(2) True, of h] assms(1)
  have "v = the (readFirstExisting fs (ID_FILE_CANDIDATES ie))" and "fs' = fs" by simp_all
  moreover from True obtain x where "readFirstExisting fs (ID_FILE_CANDIDATES ie) = Some x"
    by (auto simp: truthy_def split: option.splits)
  ultimately show ?thesis using True by simp
next
  case False
  from initSystemId_fresh[OF assms(2) False assms(1)]
  have w: "fs' = snd (writeFirstWritable fs (ID_FILE_CANDIDATES ie) v)" .
  show ?thesis
  proof (cases "find (\<lambda>p. \<not> write_throws fs p) (ID_FILE_CANDIDATES ie)")
    case None
    with w False show ?thesis by (simp add: writeFirstWritable_none)
  next
    case (Some p)
    with w have eq: "fs' = fs\<lparr> files := (files fs)(p \<mapsto>
                         (v @ nl, case files fs p of None \<Rightarrow> 0x180 AND NOT (umask fs)
                                                   | Some (c, m) \<Rightarrow> m)) \<rparr>"
      by (simp add: writeFirstWritable_some)
    then have "snd (the (files fs' p)) AND 0x3F = 0" if "files fs p = None"
      using that created_mode_owner_only by simp
    with eq Some False show ?thesis by simp
  qed
qed

lemma example_candidates:
  "ID_FILE_CANDIDATES example_id_env
     = [''/etc/tds-svc-agent.id'', ''/srv/agent/.tds-svc-agent.id'', ''/opt/agent/.tds-svc-agent.id'']"
  by (simp add: ID_FILE_CANDIDATES_def example_id_env_def)

lemma example_fresh_id:
  "fst (initSystemId example_config (example_host Linux) example_id_env example_fs_fresh)
     = ''0123abcd''"
  by code_simp

lemma example_fresh_written:
  "files (snd (initSystemId example_config (example_host Linux) example_id_env example_fs_fresh))
     ''/srv/agent/.tds-svc-agent.id'' = Some (''0123abcd'' @ nl, 0x180)"
  by code_simp

lemma example_fresh_not_written:
  "files (snd (initSystemId example_config (example_host Linux) example_id_env example_fs_fresh))
     ''/etc/tds-svc-agent.id'' = None"
  by code_simp

theorem initSystemId_persists_witness:
  "\<not> truthy (systemId_conf example_config) \<and>
   \<not> truthy (readFirstExisting example_fs_fresh (ID_FILE_CANDIDATES example_id_env)) \<and>
   find (\<lambda>p. \<not> write_throws example_fs_fresh p) (ID_FILE_CANDIDATES example_id_env)
     = Some ''/srv/agent/.tds-svc-agent.id'' \<and>
   fst (initSystemId example_config (example_host Linux) example_id_env example_fs_fresh)
     = ''0123abcd'' \<and>
   files (snd (initSystemId example_config (example_host Linux) example_id_env example_fs_fresh))
     ''/srv/agent/.tds-svc-agent.id'' = Some (''0123abcd'' @ nl, 0x180) \<and>
   files (snd (initSystemId example_config (example_host Linux) example_id_env example_fs_fresh))
     ''/etc/tds-svc-agent.id'' = None \<and>
   snd (the (files (snd (initSystemId example_config (example_host Linux) example_id_env
     example_fs_fresh)) ''/srv/agent/.tds-svc-agent.id'')) AND 0x3F = 0"
proof -
  let ?r = "initSystemId example_config (example_host Linux) example_id_env example_fs_fresh"
  have a: "\<not> truthy (systemId_conf example_config)"
    by (simp add: truthy_def example_config_def)
  have b: "\<not> truthy (readFirstExisting example_fs_fresh (ID_FILE_CANDIDATES example_id_env))"
    by (simp add: example_candidates truthy_def existsSync_def example_fs_fresh_def)
  have c: "find (\<lambda>p. \<not> write_throws example_fs_fresh p) (ID_FILE_CANDIDATES example_id_env)
             = Some ''/srv/agent/.tds-svc-agent.id''"
    by (simp add: example_candidates example_fs_fresh_def)
  have d: "files example_fs_fresh ''/srv/agent/.tds-svc-agent.id'' = None"
    by (simp add: example_fs_fresh_def)
  have e: "?r = (fst ?r, snd ?r)" by simp
  have "snd (the (files (snd ?r) ''/srv/agent/.tds-svc-agent.id'')) AND 0x3F = 0"
    using initSystemId_persists[OF e a] b d unfolding c option.case by blast
  with a b c example_fresh_id example_fresh_written example_fresh_not_written
  show ?thesis by blast
qed

text \<open>
  C8 as stated fails for a resolution through a persisted file: the value is read from
  the second candidate and returned, the file system is untouched, and the first
  candidate, which could be written, holds nothing.
\<close>

theorem persisted_not_rewritten:
  "\<not> truthy (systemId_conf example_config) \<and>
   initSystemId example_config (example_host Linux) example_id_env example_fs_persisted
     = (''abc-123'', example_fs_persisted) \<and>
   find (\<lambda>p. \<not> write_throws example_fs_persisted p) (ID_FILE_CANDIDATES example_id_env)
     = Some ''/etc/tds-svc-agent.id'' \<and>
   files example_fs_persisted ''/etc/tds-svc-agent.id'' = None"
proof -
  have a: "\<not> truthy (systemId_conf example_config)"
    by (simp add: truthy_def example_config_def)
  have r: "readFirstExisting example_fs_persisted (ID_FILE_CANDIDATES example_id_env)
             = Some ''abc-123''"
    by code_simp
  then have t: "truthy (readFirstExisting example_fs_persisted (ID_FILE_CANDIDATES example_id_env))"
    by (simp add: truthy_def)
  have i: "initSystemId example_config (example_host Linux) example_id_env example_fs_persisted
             = (''abc-123'', example_fs_persisted)"
    using initSystemId_persisted[OF a t] r by simp
  have c: "find (\<lambda>p. \<not> write_throws example_fs_persisted p) (ID_FILE_CANDIDATES example_id_env)
             = Some ''/etc/tds-svc-agent.id''"
    by (simp add: example_candidates example_fs_persisted_def)
  have d: "files example_fs_persisted ''/etc/tds-svc-agent.id'' = None"
    by (simp add: example_fs_persisted_def)
  from a i c d show ?thesis by blast
qed

section \<open>Claims on the remote command executor\<close>

lemma trim_Cons_nonempty:
  assumes "\<not> is_space c"
  shows "trim (c # s) \<noteq> []"
proof -
  from assms have "dropWhile is_space (c # s) = c # s" by simp
  moreover have "dropWhile is_space (rev (c # s)) \<noteq> []"
  proof -
    have "c \<in> set (rev (c # s))" by simp
    with assms have "\<not> (\<forall>x \<in> set (rev (c # s)). is_space x)" by blast
    then show ?thesis by (simp only: dropWhile_eq_Nil_conv) simp
  qed
  ultimately show ?thesis by (simp only: trim_def rev_is_Nil_conv) simp
qed

lemma failure_text_nonempty:
  "trim (''install.sh failed (code '' @ rest) \<noteq> []"
proof -
  have "\<not> is_space CHR ''i''" by (simp add: is_space_def)
  then have "trim (CHR ''i'' # (''nstall.sh failed (code '' @ rest)) \<noteq> []"
    by (rule trim_Cons_nonempty)
  then show ?thesis by simp
qed

lemma slice_last_length: "length (slice_last n s) \<le> n"
  by (simp add: slice_last_def)

lemma slice_last_suffix: "take (length s - n) s @ slice_last n s = s"
  by (simp add: slice_last_def)

text \<open>The command line and the environment the handler passes to the script.\<close>

lemma runLocalInstallSh_run:
  assumes "installSh_exists ie"
    and "r = spawn ie (trim (quoted (installSh ie) @ '' '' @ join '' '' (map quoted args))) env"
  shows "runLocalInstallSh ie args env =
           (if code r \<noteq> Some 0
            then Inl (trim (''install.sh failed (code '' @ show_code (code r) @ ''): ''
                   @ (if err r \<noteq> [] then err r else if out r \<noteq> [] then out r
                      else show_code (code r))))
            else Inr (code r, slice_last 4000 (out r)))"
  using assms by (simp add: runLocalInstallSh_def Let_def)

text \<open>
  C9, as the code has it. For every \<open>runInstall\<close> request whose script exists: when the
  script exits zero, the reply handed to \<open>wsSend\<close> is an \<open>installResult\<close> with \<open>ok = true\<close>
  that carries the captured standard output only, cut to its last 4000 characters (what
  the script wrote to standard error is not in it), followed by the restart timer if the
  request asked for one; when the script does not exit zero, the reply has \<open>ok = false\<close>
  and the error text \<open>install.sh failed (code N): \<close> followed by the whole standard
  error, or the whole standard output if that is empty, or the code if both are, trimmed;
  nothing else is done, so no restart or exit is scheduled.
\<close>

theorem runInstall_reply:
  assumes "installSh_exists ie"
    and "r = spawn ie
               (trim (quoted (installSh ie) @ '' '' @ join '' '' (map quoted (install_args ts data))))
               (install_env_vars ts data)"
  shows "(code r = Some 0 \<longrightarrow>
            handle_runInstall ie ts sock data
              = wsSend sock (InstallResult (field data ''id'') True
                               (Some (slice_last 4000 (out r))) None)
                @ (if is_true (field data ''restart'') then [RestartSelfIn 500] else []) \<and>
            length (slice_last 4000 (out r)) \<le> 4000 \<and>
            take (length (out r) - 4000) (out r) @ slice_last 4000 (out r) = out r) \<and>
         (code r \<noteq> Some 0 \<longrightarrow>
            handle_runInstall ie ts sock data
              = wsSend sock (InstallResult (field data ''id'') False None
                  (Some (trim (''install.sh failed (code '' @ show_code (code r) @ ''): ''
                     @ (if err r \<noteq> [] then err r else if out r \<noteq> [] then out r
                        else show_code (code r)))))) \<and>
            (\<forall>n. RestartSelfIn n \<notin> set (handle_runInstall ie ts sock data)))"
proof -
  let ?msg = "trim (''install.sh failed (code '' @ show_code (code r) @ ''): ''
                @ (if err r \<noteq> [] then err r else if out r \<noteq> [] then out r
                   else show_code (code r)))"
  note run = runLocalInstallSh_run[OF assms]
  have ok: "handle_runInstall ie ts sock data
              = wsSend sock (InstallResult (field data ''id'') True
                               (Some (slice_last 4000 (out r))) None)
                @ (if is_true (field data ''restart'') then [RestartSelfIn 500] else [])"
    if "code r = Some 0"
    using that run by (simp add: handle_runInstall_def Let_def)
  have ne: "?msg \<noteq> []" by (rule failure_text_nonempty)
  have bad: "handle_runInstall ie ts sock data
               = wsSend sock (InstallResult (field data ''id'') False None (Some ?msg))"
    if "code r \<noteq> Some 0"
  proof -
    from that run have "runLocalInstallSh ie (install_args ts data) (install_env_vars ts data)
                          = Inl ?msg"
      by (simp only: if_True not_False_eq_True)
    then have "handle_runInstall ie ts sock data
                 = wsSend sock (InstallResult (field data ''id'') False None
                     (Some (if ?msg \<noteq> [] then ?msg else ''Error'')))"
      by (simp only: handle_runInstall_def Let_def sum.case)
    with ne show ?thesis by (simp only: if_True not_False_eq_True)
  qed
  have none: "RestartSelfIn n \<notin> set (handle_runInstall ie ts sock data)"
    if "code r \<noteq> Some 0" for n
    unfolding bad[OF that] by (simp add: wsSend_def)
  from ok bad none slice_last_length slice_last_suffix show ?thesis by blast
qed

lemma example_install_ok:
  "handle_runInstall example_install example_to_string (Some OPEN) example_install_msg
     = [WsSend (InstallResult (Some (JStr ''r1'')) True (Some ''ok'') None)]"
  by code_simp

lemma example_install_failed:
  "handle_runInstall example_install example_to_string (Some OPEN) example_failing_msg
     = [WsSend (InstallResult (Some (JStr ''r2'')) False None
          (Some ''install.sh failed (code 1): boom''))]"
  by code_simp

lemma example_spawn_ok:
  "spawn example_install
     (trim (quoted (installSh example_install) @ '' ''
            @ join '' '' (map quoted (install_args example_to_string example_install_msg))))
     (install_env_vars example_to_string example_install_msg)
   = \<lparr> code = Some 0, out = ''ok'', err = ''warn'' \<rparr>"
  by code_simp

lemma example_spawn_failed:
  "spawn example_install
     (trim (quoted (installSh example_install) @ '' ''
            @ join '' '' (map quoted (install_args example_to_string example_failing_msg))))
     (install_env_vars example_to_string example_failing_msg)
   = \<lparr> code = Some 1, out = [], err = ''boom'' \<rparr>"
  by code_simp

theorem runInstall_reply_witness:
  "installSh_exists example_install \<and>
   handle_runInstall example_install example_to_string (Some OPEN) example_install_msg
     = [WsSend (InstallResult (Some (JStr ''r1'')) True (Some ''ok'') None)] \<and>
   handle_runInstall example_install example_to_string (Some OPEN) example_failing_msg
     = [WsSend (InstallResult (Some (JStr ''r2'')) False None
          (Some ''install.sh failed (code 1): boom''))] \<and>
   is_true (field example_failing_msg ''restart'') \<and>
   RestartSelfIn 500 \<notin> set (handle_runInstall example_install example_to_string (Some OPEN)
                               example_failing_msg)"
proof -
  have x: "installSh_exists example_install" by (simp add: example_install_def)
  have c: "code \<lparr> code = Some 1, out = [], err = ''boom'' \<rparr> \<noteq> Some 0" by simp
  have t: "is_true (field example_failing_msg ''restart'')"
    by (simp add: example_failing_msg_def field_def)
  from runInstall_reply[OF x example_spawn_failed[symmetric], of "Some OPEN"] c
  have "RestartSelfIn 500 \<notin> set (handle_runInstall example_install example_to_string (Some OPEN)
                               example_failing_msg)"
    by blast
  with x t example_install_ok example_install_failed show ?thesis by blast
qed

text \<open>
  C9 as stated fails in the success reply: the script wrote \<open>ok\<close> to its standard output
  and \<open>warn\<close> to its standard error and exited zero; the reply carries \<open>ok\<close> alone, which is
  not the combined output, in either order.
\<close>

theorem install_reply_drops_stderr:
  "spawn example_install
     (trim (quoted (installSh example_install) @ '' ''
            @ join '' '' (map quoted (install_args example_to_string example_install_msg))))
     (install_env_vars example_to_string example_install_msg)
   = \<lparr> code = Some 0, out = ''ok'', err = ''warn'' \<rparr> \<and>
   handle_runInstall example_install example_to_string (Some OPEN) example_install_msg
     = [WsSend (InstallResult (Some (JStr ''r1'')) True (Some ''ok'') None)] \<and>
   ''ok'' \<noteq> slice_last 4000 (''ok'' @ ''warn'') \<and>
   ''ok'' \<noteq> slice_last 4000 (''warn'' @ ''ok'')"
  using example_spawn_ok example_install_ok by (simp add: slice_last_def)

end
